theory Spec2Isabelle
  imports Main
begin

section \<open>Strings and paths\<close>

text \<open>
  Python strings are modelled as \<^typ>\<open>string\<close>. \<open>split_on c s\<close> is \<open>s.split(c)\<close>
  for a one-character separator: it always returns at least one field.
\<close>

fun split_on :: "char \<Rightarrow> string \<Rightarrow> string list" where
  "split_on c [] = [[]]"
| "split_on c (x # xs) =
     (if x = c then [] # split_on c xs
      else (case split_on c xs of [] \<Rightarrow> [[x]] | w # ws \<Rightarrow> (x # w) # ws))"

text \<open>\<open>posixpath.join(a, b)\<close>.\<close>

definition path_join :: "string \<Rightarrow> string \<Rightarrow> string" where
  "path_join a b =
     (if b \<noteq> [] \<and> hd b = CHR ''/'' then b
      else if a = [] \<or> last a = CHR ''/'' then a @ b
      else a @ ''/'' @ b)"

section \<open>The file system\<close>

text \<open>
  A location is the list of names from the root. The file system holds the working
  directory of the process, the set of directories and the regular files with their
  contents. Symbolic links are not modelled. The root always is a directory.
\<close>

type_synonym key = "string list"

record filesys =
  cwd :: key
  dirs :: "key set"
  files :: "key \<rightharpoonup> string"

definition is_dir :: "filesys \<Rightarrow> key \<Rightarrow> bool" where
  "is_dir fs k = (k = [] \<or> k \<in> dirs fs)"

text \<open>
  Path resolution as the kernel does it, one component at a time: every component is
  looked up in a directory, empty components and \<open>.\<close> stay, \<open>..\<close> goes to the parent.
\<close>

fun walk :: "filesys \<Rightarrow> key \<Rightarrow> string list \<Rightarrow> key option" where
  "walk fs cur [] = Some cur"
| "walk fs cur (c # cs) =
     (if \<not> is_dir fs cur then None
      else if c = [] \<or> c = ''.'' then walk fs cur cs
      else if c = ''..'' then walk fs (butlast cur) cs
      else walk fs (cur @ [c]) cs)"

definition start_of :: "filesys \<Rightarrow> string \<Rightarrow> key" where
  "start_of fs p = (if p \<noteq> [] \<and> hd p = CHR ''/'' then [] else cwd fs)"

definition lookup :: "filesys \<Rightarrow> string \<Rightarrow> key option" where
  "lookup fs p = (if p = [] then None else walk fs (start_of fs p) (split_on CHR ''/'' p))"

text \<open>\<open>os.path.isdir\<close> and \<open>os.path.exists\<close>.\<close>

definition path_isdir :: "filesys \<Rightarrow> string \<Rightarrow> bool" where
  "path_isdir fs p = (case lookup fs p of None \<Rightarrow> False | Some k \<Rightarrow> is_dir fs k)"

definition path_exists :: "filesys \<Rightarrow> string \<Rightarrow> bool" where
  "path_exists fs p =
     (case lookup fs p of None \<Rightarrow> False | Some k \<Rightarrow> is_dir fs k \<or> k \<in> dom (files fs))"

section \<open>Status query (routers/api\_anitform.py, check\_status)\<close>

datatype http_error = HTTPException nat string

definition check_status :: "filesys \<Rightarrow> string \<Rightarrow> http_error + (string \<times> string) list" where
  "check_status fs job_id =
     (let folder = path_join ''anti_form_jobs'' job_id in
      if \<not> path_isdir fs folder then Inl (HTTPException 404 ''Job ID not found.'')
      else if path_exists fs (path_join folder ''complete_ok'')
        then Inr [(''status'', ''done''), (''job_id'', job_id)]
        else Inr [(''status'', ''running''), (''job_id'', job_id)])"

section \<open>File download (routers/api\_anitform.py, download\_file)\<close>

datatype response = FileResponse string string

definition download_file :: "filesys \<Rightarrow> string \<Rightarrow> string \<Rightarrow> http_error + response" where
  "download_file fs job_id filename =
     (let folder = path_join ''anti_form_jobs'' job_id in
      if \<not> path_isdir fs folder then Inl (HTTPException 404 ''Job ID not found.'')
      else let file_path = path_join folder filename in
        if \<not> path_exists fs file_path then Inl (HTTPException 404 ''File not found.'')
        else Inr (FileResponse file_path filename))"

text \<open>
  \<open>below d k\<close>: location \<open>k\<close> lies strictly below the directory \<open>d\<close>. A path resolves
  inside a folder when both resolve and the one lies below the other.
\<close>

definition below :: "key \<Rightarrow> key \<Rightarrow> bool" where
  "below d k = (length d < length k \<and> take (length d) k = d)"

definition resolves_inside :: "filesys \<Rightarrow> string \<Rightarrow> string \<Rightarrow> bool" where
  "resolves_inside fs folder p =
     (case lookup fs folder of None \<Rightarrow> False
      | Some d \<Rightarrow> (case lookup fs p of None \<Rightarrow> False | Some k \<Rightarrow> below d k))"

text \<open>
  Around the handler stands the web framework (FastAPI and Starlette, not part of the
  repository). The route \<open>/download/{job_id}/{filename}\<close> binds each parameter to one
  path segment, not empty and without \<open>/\<close>; a request that does not fit is answered 404
  and the handler is not called. A \<open>FileResponse\<close> is sent with the contents when its
  path names a regular file (a path that ends in an empty component, \<open>.\<close> or \<open>..\<close> never
  does) and is answered 500 otherwise.
\<close>

definition path_segment :: "string \<Rightarrow> bool" where
  "path_segment s = (s \<noteq> [] \<and> CHR ''/'' \<notin> set s)"

definition regular_file :: "filesys \<Rightarrow> string \<Rightarrow> string option" where
  "regular_file fs p =
     (case lookup fs p of
        None \<Rightarrow> None
      | Some k \<Rightarrow>
          if is_dir fs k \<or> last (split_on CHR ''/'' p) \<in> {[], ''.'', ''..''} then None
          else files fs k)"

datatype http_reply = File_sent string string | Error_reply nat

definition download_route :: "filesys \<Rightarrow> string \<Rightarrow> string \<Rightarrow> http_reply" where
  "download_route fs job_id filename =
     (if \<not> path_segment job_id \<or> \<not> path_segment filename then Error_reply 404
      else (case download_file fs job_id filename of
              Inl (HTTPException code detail) \<Rightarrow> Error_reply code
            | Inr (FileResponse path name) \<Rightarrow>
                (case regular_file fs path of
                   None \<Rightarrow> Error_reply 500
                 | Some contents \<Rightarrow> File_sent path contents)))"

text \<open>Two job directories; the second holds the submitter's form data.\<close>

definition fs_two_jobs :: filesys where
  "fs_two_jobs =
     \<lparr> cwd = [''srv''],
       dirs = {[''srv''], [''srv'', ''anti_form_jobs''], [''srv'', ''anti_form_jobs'', ''J1''],
               [''srv'', ''anti_form_jobs'', ''J2'']},
       files = [[''srv'', ''anti_form_jobs'', ''J2'', ''formData.json'']
                  \<mapsto> ''{email: someone@example.org}''] \<rparr>"

text \<open>A job directory that holds an \<open>error.log\<close> and no \<open>complete_ok\<close>.\<close>

definition fs_failed_job :: filesys where
  "fs_failed_job =
     \<lparr> cwd = [''srv''],
       dirs = {[''srv''], [''srv'', ''anti_form_jobs''], [''srv'', ''anti_form_jobs'', ''J1'']},
       files = [[''srv'', ''anti_form_jobs'', ''J1'', ''error.log'']
                  \<mapsto> ''Taxonomic Assignment failed:''] \<rparr>"

section \<open>Exceptions\<close>

text \<open>
  A raised Python exception. \<open>OSError n msg path\<close> is an operating-system error with its
  errno, message and file name; \<open>CalledProcessError m err\<close> is the exception of a tool that
  exits with a non-zero status, with its message \<open>m\<close> and the captured \<open>stderr\<close>;
  \<open>Raised m\<close> is any other exception \<open>e\<close> with \<open>str(e) = m\<close>.
\<close>

datatype exn =
    OSError nat string string | CalledProcessError string string | StopIteration
  | RecursionError | Raised string

fun show_nat :: "nat \<Rightarrow> string" where
  "show_nat n =
     (if n < 10 then [''0123456789'' ! n] else show_nat (n div 10) @ [''0123456789'' ! (n mod 10)])"

declare show_nat.simps [simp del]

definition nl :: string where
  "nl = [CHR 0x0A]"

text \<open>
  \<open>repr\<close> of a string of 8-bit characters: double quotes when the string holds a single
  quote and no double quote, single quotes otherwise; the quote in use and the backslash
  are escaped, tab, newline and return are written \<open>\t\<close>, \<open>\n\<close>, \<open>\r\<close>, and every other
  character that is not printable is written \<open>\xhh\<close>.
\<close>

definition hex2 :: "nat \<Rightarrow> string" where
  "hex2 n = [''0123456789abcdef'' ! (n div 16), ''0123456789abcdef'' ! (n mod 16)]"

definition repr_char :: "char \<Rightarrow> char \<Rightarrow> string" where
  "repr_char q c =
     (if c = q \<or> c = CHR 0x5C then [CHR 0x5C, c]
      else if c = CHR 0x09 then [CHR 0x5C, CHR ''t'']
      else if c = CHR 0x0A then [CHR 0x5C, CHR ''n'']
      else if c = CHR 0x0D then [CHR 0x5C, CHR ''r'']
      else if (of_char c :: nat) < 32 \<or> (of_char c :: nat) = 127
              \<or> (128 \<le> (of_char c :: nat) \<and> (of_char c :: nat) \<le> 160)
              \<or> (of_char c :: nat) = 173
        then [CHR 0x5C, CHR ''x''] @ hex2 (of_char c)
      else [c])"

definition py_repr :: "string \<Rightarrow> string" where
  "py_repr s =
     (if CHR 0x27 \<in> set s \<and> CHR 0x22 \<notin> set s
      then [CHR 0x22] @ concat (map (repr_char (CHR 0x22)) s) @ [CHR 0x22]
      else [CHR 0x27] @ concat (map (repr_char (CHR 0x27)) s) @ [CHR 0x27])"

fun str_exn :: "exn \<Rightarrow> string" where
  "str_exn (OSError n msg path) = ''[Errno '' @ show_nat n @ ''] '' @ msg @ '': '' @ py_repr path"
| "str_exn (CalledProcessError m err) = m"
| "str_exn StopIteration = []"
| "str_exn RecursionError = ''maximum recursion depth exceeded''"
| "str_exn (Raised m) = m"

section \<open>Writing to the file system\<close>

text \<open>
  The errno of a path whose directory part does not resolve: 20 (not a directory) when
  the walk meets a regular file where it needs a directory, 2 (no such entry) otherwise.
\<close>

definition errno_text :: "nat \<Rightarrow> string" where
  "errno_text n =
     (if n = 17 then ''File exists'' else if n = 20 then ''Not a directory''
      else if n = 21 then ''Is a directory'' else ''No such file or directory'')"

definition no_dir_errno :: "filesys \<Rightarrow> key \<Rightarrow> nat" where
  "no_dir_errno fs k = (if k \<in> dom (files fs) then 20 else 2)"

fun walk_errno :: "filesys \<Rightarrow> key \<Rightarrow> string list \<Rightarrow> nat" where
  "walk_errno fs cur [] = no_dir_errno fs cur"
| "walk_errno fs cur (c # cs) =
     (if \<not> is_dir fs cur then no_dir_errno fs cur
      else if c = [] \<or> c = ''.'' then walk_errno fs cur cs
      else if c = ''..'' then walk_errno fs (butlast cur) cs
      else walk_errno fs (cur @ [c]) cs)"

text \<open>
  \<open>open_target fs p\<close> is the location that \<open>open(p, "w")\<close> or \<open>open(p, "a")\<close> creates or
  opens: the directory part must resolve to a directory and the last component must
  name an entry that is not a directory.
\<close>

definition open_target :: "filesys \<Rightarrow> string \<Rightarrow> exn + key" where
  "open_target fs p =
     (if p = [] then Inl (OSError 2 (errno_text 2) p)
      else
        (case walk fs (start_of fs p) (butlast (split_on CHR ''/'' p)) of
           None \<Rightarrow>
             Inl (OSError (walk_errno fs (start_of fs p) (butlast (split_on CHR ''/'' p)))
                    (errno_text (walk_errno fs (start_of fs p) (butlast (split_on CHR ''/'' p))))
                    p)
         | Some d \<Rightarrow>
             if \<not> is_dir fs d
               then Inl (OSError (no_dir_errno fs d) (errno_text (no_dir_errno fs d)) p)
             else if last (split_on CHR ''/'' p) \<in> {[], ''.'', ''..''}
               then Inl (OSError 21 (errno_text 21) p)
             else if is_dir fs (d @ [last (split_on CHR ''/'' p)])
               then Inl (OSError 21 (errno_text 21) p)
             else Inr (d @ [last (split_on CHR ''/'' p)])))"

text \<open>\<open>with open(p, "w") as f: f.write(text)\<close>; \<open>open(p, "w").close()\<close> writes the empty text.\<close>

definition write_file :: "filesys \<Rightarrow> string \<Rightarrow> string \<Rightarrow> exn + filesys" where
  "write_file fs p text =
     (case open_target fs p of Inl e \<Rightarrow> Inl e
      | Inr k \<Rightarrow> Inr (fs\<lparr>files := (files fs)(k \<mapsto> text)\<rparr>))"

text \<open>\<open>with open(p, "a") as f: f.write(text)\<close>.\<close>

definition append_file :: "filesys \<Rightarrow> string \<Rightarrow> string \<Rightarrow> exn + filesys" where
  "append_file fs p text =
     (case open_target fs p of Inl e \<Rightarrow> Inl e
      | Inr k \<Rightarrow>
          Inr (fs\<lparr>files := (files fs)(k \<mapsto> (case files fs k of None \<Rightarrow> [] | Some old \<Rightarrow> old) @ text)\<rparr>))"

definition read_file :: "filesys \<Rightarrow> string \<Rightarrow> string option" where
  "read_file fs p = (case lookup fs p of None \<Rightarrow> None | Some k \<Rightarrow> files fs k)"

text \<open>
  \<open>os.makedirs(path, exist_ok=True)\<close>: every missing directory on the way is created; a
  regular file in the way is an error (errno 17 at the last component, 20 before it).
\<close>

fun mkdirs :: "filesys \<Rightarrow> key \<Rightarrow> string list \<Rightarrow> nat + filesys" where
  "mkdirs fs cur [] = (if is_dir fs cur then Inr fs else Inl (no_dir_errno fs cur))"
| "mkdirs fs cur (c # cs) =
     (if \<not> is_dir fs cur then Inl (no_dir_errno fs cur)
      else if c = [] \<or> c = ''.'' then mkdirs fs cur cs
      else if c = ''..'' then mkdirs fs (butlast cur) cs
      else if cur @ [c] \<in> dom (files fs) then Inl (if cs = [] then 17 else 20)
      else mkdirs (fs\<lparr>dirs := insert (cur @ [c]) (dirs fs)\<rparr>) (cur @ [c]) cs)"

definition makedirs :: "filesys \<Rightarrow> string \<Rightarrow> exn + filesys" where
  "makedirs fs p =
     (if p = [] then Inl (OSError 2 (errno_text 2) p)
      else (case mkdirs fs (start_of fs p) (split_on CHR ''/'' p) of
              Inl n \<Rightarrow> Inl (OSError n (errno_text n) p)
            | Inr fs' \<Rightarrow> Inr fs'))"

text \<open>
  \<open>os.path.abspath\<close>: the path is joined to the working directory and normalised
  textually; exactly two leading slashes are kept, as \<open>posixpath.normpath\<close> does.
\<close>

fun norm_from :: "key \<Rightarrow> string list \<Rightarrow> key" where
  "norm_from cur [] = cur"
| "norm_from cur (c # cs) =
     (if c = [] \<or> c = ''.'' then norm_from cur cs
      else if c = ''..'' then norm_from (butlast cur) cs
      else norm_from (cur @ [c]) cs)"

definition render_abs :: "key \<Rightarrow> string" where
  "render_abs k = (if k = [] then ''/'' else concat (map (\<lambda>c. CHR ''/'' # c) k))"

definition abspath :: "filesys \<Rightarrow> string \<Rightarrow> string" where
  "abspath fs p =
     (if take 2 p = ''//'' \<and> take 3 p \<noteq> ''///''
      then CHR ''/'' # render_abs (norm_from (start_of fs p) (split_on CHR ''/'' p))
      else render_abs (norm_from (start_of fs p) (split_on CHR ''/'' p)))"

section \<open>The pipeline (pipeline/anti\_pipeline.py)\<close>

text \<open>
  The external world of one pipeline run: what each tool invocation
  \<open>subprocess.run(cmd, check=True)\<close> raises (\<open>None\<close> when the tool exits with status 0),
  the text read from a result file the tools wrote, and the rows \<open>csv.reader\<close> yields
  from a table (\<open>Inl\<close> the exception raised on opening, decoding or parsing). The files
  the tools write are seen through these readers only; the \<^typ>\<open>filesys\<close> holds the
  entries the Python code itself creates.
\<close>

record world =
  tool :: "string list \<Rightarrow> exn option"
  read_text :: "string \<Rightarrow> exn + string"
  read_rows :: "string \<Rightarrow> exn + string list list"

text \<open>The seven \<open>try\<close> blocks of \<open>run_pipeline\<close> whose handler writes \<open>error.log\<close>.\<close>

datatype stage =
    Taxonomic_Assignment | Query_Profiling | Ab_Comparison_alleticDist | CgMLST_Profiler
  | Dendrogram_Heatmap | Simple_Ab_Comparison | Parsing_hits_summary

text \<open>
  Each operation on the outside is recorded with the place it was issued from (the body
  of a stage's \<open>try\<close>, the handler of a stage, the finalization after the stages, or the
  worker) and the exception it raised, if any.
\<close>

datatype place = Body stage | Handler stage | Final | Worker

datatype oper =
    Makedirs string | Run "string list" | Touch string | Write string string
  | Append string string | Read_rows string

type_synonym event = "place \<times> oper \<times> exn option"

record pstate =
  fsys :: filesys
  trace :: "event list"

type_synonym stmt = "pstate \<Rightarrow> exn option \<times> pstate"

definition emit :: "place \<Rightarrow> oper \<Rightarrow> exn + filesys \<Rightarrow> stmt" where
  "emit pl oper r s =
     (case r of
        Inl e \<Rightarrow> (Some e, s\<lparr>trace := trace s @ [(pl, oper, Some e)]\<rparr>)
      | Inr fs' \<Rightarrow> (None, \<lparr>fsys = fs', trace = trace s @ [(pl, oper, None)]\<rparr>))"

definition ensure_dir :: "place \<Rightarrow> string \<Rightarrow> stmt" where
  "ensure_dir pl path s = emit pl (Makedirs path) (makedirs (fsys s) path) s"

definition subprocess_run :: "world \<Rightarrow> place \<Rightarrow> string list \<Rightarrow> stmt" where
  "subprocess_run w pl cmd s =
     emit pl (Run cmd) (case tool w cmd of Some e \<Rightarrow> Inl e | None \<Rightarrow> Inr (fsys s)) s"

definition touch :: "place \<Rightarrow> string \<Rightarrow> stmt" where
  "touch pl path s = emit pl (Touch path) (write_file (fsys s) path []) s"

definition write_text :: "place \<Rightarrow> string \<Rightarrow> string \<Rightarrow> stmt" where
  "write_text pl path text s = emit pl (Write path text) (write_file (fsys s) path text) s"

definition append_text :: "place \<Rightarrow> string \<Rightarrow> string \<Rightarrow> stmt" where
  "append_text pl path text s = emit pl (Append path text) (append_file (fsys s) path text) s"

text \<open>Statements in sequence: an exception ends the sequence.\<close>

definition seq :: "stmt \<Rightarrow> stmt \<Rightarrow> stmt" where
  "seq a b s = (case a s of (Some e, s') \<Rightarrow> (Some e, s') | (None, s') \<Rightarrow> b s')"

text \<open>
  How a \<open>try\<close> block with a handler that ends in \<open>return\<close> leaves: the body went through
  (\<open>Continue\<close>), the handler ran and returned from the function (\<open>Return\<close>), or the handler
  itself raised (\<open>Raise\<close>).
\<close>

datatype flow = Continue | Return | Raise exn

definition stage_label :: "stage \<Rightarrow> string" where
  "stage_label st =
     (case st of
        Taxonomic_Assignment \<Rightarrow> ''Taxonomic Assignment''
      | Query_Profiling \<Rightarrow> ''Query-Profiling''
      | Ab_Comparison_alleticDist \<Rightarrow> ''Ab-Comparison-alleticDist''
      | CgMLST_Profiler \<Rightarrow> ''cgMLST-Profiler''
      | Dendrogram_Heatmap \<Rightarrow> ''Dendrogram or Heatmap''
      | Simple_Ab_Comparison \<Rightarrow> ''Simple Ab-Comparison''
      | Parsing_hits_summary \<Rightarrow> ''Parsing hits_summary'')"

definition failure_text :: "stage \<Rightarrow> exn \<Rightarrow> string" where
  "failure_text st e = stage_label st @ '' failed:'' @ nl @ str_exn e @ nl"

text \<open>
  The handlers: \<open>error.log\<close> is opened with mode \<open>"w"\<close> in the first stage and with mode
  \<open>"a"\<close> in all others.
\<close>

definition log_oper :: "string \<Rightarrow> stage \<Rightarrow> exn \<Rightarrow> oper" where
  "log_oper job_dir st e =
     (if st = Taxonomic_Assignment
      then Write (path_join job_dir ''error.log'') (failure_text st e)
      else Append (path_join job_dir ''error.log'') (failure_text st e))"

definition log_failure :: "string \<Rightarrow> stage \<Rightarrow> exn \<Rightarrow> stmt" where
  "log_failure job_dir st e =
     (if st = Taxonomic_Assignment
      then write_text (Handler st) (path_join job_dir ''error.log'') (failure_text st e)
      else append_text (Handler st) (path_join job_dir ''error.log'') (failure_text st e))"

definition try_stage :: "string \<Rightarrow> stage \<Rightarrow> stmt \<Rightarrow> pstate \<Rightarrow> flow \<times> pstate" where
  "try_stage job_dir st body s =
     (case body s of
        (None, s') \<Rightarrow> (Continue, s')
      | (Some e, s') \<Rightarrow>
          (case log_failure job_dir st e s' of
             (None, s'') \<Rightarrow> (Return, s'')
           | (Some e', s'') \<Rightarrow> (Raise e', s'')))"

definition and_then ::
  "(pstate \<Rightarrow> flow \<times> pstate) \<Rightarrow> (pstate \<Rightarrow> flow \<times> pstate) \<Rightarrow> pstate \<Rightarrow> flow \<times> pstate" where
  "and_then f g s = (case f s of (Continue, s') \<Rightarrow> g s' | (Return, s') \<Rightarrow> (Return, s')
                     | (Raise e, s') \<Rightarrow> (Raise e, s'))"

subsection \<open>Stage 1 and the species\<close>

definition cmd1 :: "string \<Rightarrow> string \<Rightarrow> string list" where
  "cmd1 fasta_path out_dir1 =
     [''1.Taxonomic-Assignments.pl'', ''-i'', fasta_path, ''-d'',
      ''/home/chieh/antibiogram_platform/databases/silva/silva_db_all'', ''-o'', out_dir1,
      ''-p'', ''12'']"

definition taxonomic_assignment :: "world \<Rightarrow> string \<Rightarrow> pstate \<Rightarrow> flow \<times> pstate" where
  "taxonomic_assignment w job_dir =
     try_stage job_dir Taxonomic_Assignment
       (seq (ensure_dir (Body Taxonomic_Assignment) (path_join job_dir ''1.taxAssign''))
       (seq (subprocess_run w (Body Taxonomic_Assignment)
               (cmd1 (path_join job_dir ''contigFile.fa'') (path_join job_dir ''1.taxAssign'')))
            (touch (Body Taxonomic_Assignment) (path_join job_dir ''taxAssign_ok''))))"

text \<open>
  \<open>readline\<close> on text as Python delivers it (line ends already translated to \<open>\n\<close>),
  \<open>str.strip\<close> with the white space among the first 256 code points, and
  \<open>s.split(sep, 1)\<close>.
\<close>

definition readline :: "string \<Rightarrow> string" where
  "readline text =
     takeWhile (\<lambda>c. c \<noteq> CHR 0x0A) text @ (if CHR 0x0A \<in> set text then [CHR 0x0A] else [])"

definition is_space :: "char \<Rightarrow> bool" where
  "is_space c = ((of_char c :: nat) \<in> {9, 10, 11, 12, 13, 28, 29, 30, 31, 32, 133, 160})"

definition py_strip :: "string \<Rightarrow> string" where
  "py_strip s = rev (dropWhile is_space (rev (dropWhile is_space s)))"

definition split_once :: "char \<Rightarrow> string \<Rightarrow> string list" where
  "split_once c s =
     (if c \<in> set s then [takeWhile (\<lambda>x. x \<noteq> c) s, tl (dropWhile (\<lambda>x. x \<noteq> c) s)] else [s])"

definition mapping :: "(string \<times> string) list" where
  "mapping =
     [(''Acinetobacter_baumannii'', ''AB''), (''Enterococcus_faecium'', ''EF''),
      (''Klebsiella_pneumoniae'', ''KP''), (''Pseudomonas_aeruginosa'', ''PA''),
      (''Staphylococcus_aureus'', ''SA'')]"

definition species_key :: "string \<Rightarrow> exn + string" where
  "species_key text =
     (let first_line = py_strip (readline text) in
      (case split_on CHR 0x09 first_line of
         [] \<Rightarrow> Inl (Raised ''list index out of range'')
       | sp_full # _ \<Rightarrow>
           (case split_once CHR ''_'' sp_full of
              [a, b] \<Rightarrow> Inr (a @ ''_'' @ b)
            | _ \<Rightarrow> Inr sp_full)))"

text \<open>Step 2: any exception while reading or parsing the result leaves the organism \<open>None\<close>.\<close>

definition resolve_organism :: "world \<Rightarrow> string \<Rightarrow> string option" where
  "resolve_organism w job_dir =
     (case read_text w (path_join (path_join job_dir ''1.taxAssign'') ''taxAssign.result'') of
        Inl e \<Rightarrow> None
      | Inr text \<Rightarrow>
          (case species_key text of Inl e \<Rightarrow> None | Inr sp_key \<Rightarrow> map_of mapping sp_key))"

definition known_organisms :: "string list" where
  "known_organisms = [''AB'', ''EF'', ''KP'', ''PA'', ''SA'']"

subsection \<open>Branch A: one of the five organisms\<close>

definition cmd2 :: "string \<Rightarrow> string \<Rightarrow> string \<Rightarrow> string list" where
  "cmd2 fasta_path organism out_dir2 =
     [''2.Query-Profiling.pl'', ''-i'', fasta_path, ''-d'',
      ''/home/chieh/antibiogram_platform/databases/cgMLST_db'', ''-b'', organism, ''-o'',
      out_dir2, ''-p'', ''12'']"

definition query_profiling :: "world \<Rightarrow> string \<Rightarrow> string \<Rightarrow> pstate \<Rightarrow> flow \<times> pstate" where
  "query_profiling w job_dir organism =
     try_stage job_dir Query_Profiling
       (seq (ensure_dir (Body Query_Profiling) (path_join job_dir ''2.QueryProfile''))
       (seq (subprocess_run w (Body Query_Profiling)
               (cmd2 (path_join job_dir ''contigFile.fa'') organism
                  (path_join job_dir ''2.QueryProfile'')))
            (touch (Body Query_Profiling) (path_join job_dir ''queryProfile_ok''))))"

definition cmd3 :: "string \<Rightarrow> string \<Rightarrow> string \<Rightarrow> string \<Rightarrow> string list" where
  "cmd3 fasta_path allele_matrix organism out_dir3 =
     [''3.Antibiogram-Comparison-alleticDist.pl'', ''-i'', fasta_path, ''-j'', allele_matrix,
      ''-b'', organism, ''-o'', out_dir3, ''-p'', ''12'']"

definition ab_comparison_alleticDist ::
  "world \<Rightarrow> string \<Rightarrow> string \<Rightarrow> pstate \<Rightarrow> flow \<times> pstate" where
  "ab_comparison_alleticDist w job_dir organism =
     try_stage job_dir Ab_Comparison_alleticDist
       (seq (ensure_dir (Body Ab_Comparison_alleticDist) (path_join job_dir ''3.abProfilesCmp''))
       (seq (subprocess_run w (Body Ab_Comparison_alleticDist)
               (cmd3 (path_join job_dir ''contigFile.fa'')
                  (path_join (path_join job_dir ''2.QueryProfile'') ''alleleMatrix.1'')
                  organism (path_join job_dir ''3.abProfilesCmp'')))
            (touch (Body Ab_Comparison_alleticDist) (path_join job_dir ''abProfilesCmp_ok''))))"

definition cmd4 :: "string \<Rightarrow> string \<Rightarrow> string \<Rightarrow> string \<Rightarrow> string list" where
  "cmd4 out_dir2 hits_table organism out_dir4 =
     [''4.cgMLST-Profiler-alleticDist.pl'', ''-i'', out_dir2, ''-d'',
      ''/home/chieh/antibiogram_platform/databases/cgMLST_db'', ''-h'', hits_table, ''-b'',
      organism, ''-o'', out_dir4, ''-p'', ''12'']"

definition cgmlst_profiler :: "world \<Rightarrow> string \<Rightarrow> string \<Rightarrow> pstate \<Rightarrow> flow \<times> pstate" where
  "cgmlst_profiler w job_dir organism =
     try_stage job_dir CgMLST_Profiler
       (seq (ensure_dir (Body CgMLST_Profiler) (path_join job_dir ''4.cgProfiles''))
       (seq (subprocess_run w (Body CgMLST_Profiler)
               (cmd4 (path_join job_dir ''2.QueryProfile'')
                  (path_join (path_join job_dir ''3.abProfilesCmp'') ''hits_table.tsv'')
                  organism (path_join job_dir ''4.cgProfiles'')))
            (touch (Body CgMLST_Profiler) (path_join job_dir ''cgProfiles_ok''))))"

definition cmd5 :: "string \<Rightarrow> string \<Rightarrow> string list" where
  "cmd5 out_dir4 out_dir5 = [''5.Dendro-Plotter_NJ.pl'', ''-i'', out_dir4, ''-o'', out_dir5]"

definition cmd_heatmap :: "string \<Rightarrow> string list" where
  "cmd_heatmap job_dir =
     [''/home/ngp/R-4.3.2/bin/Rscript'', ''/home/ngp/R_code/5NosoAE/12_13_heatmap_new.R'',
      job_dir]"

text \<open>
  The heat map is given \<open>os.path.abspath(job_dir)\<close>; \<open>job_dir\<close> already is absolute and
  normalised there, so the model passes it as it is.
\<close>

definition dendrogram_heatmap :: "world \<Rightarrow> string \<Rightarrow> pstate \<Rightarrow> flow \<times> pstate" where
  "dendrogram_heatmap w job_dir =
     try_stage job_dir Dendrogram_Heatmap
       (seq (ensure_dir (Body Dendrogram_Heatmap) (path_join job_dir ''5.DendroPlot''))
       (seq (subprocess_run w (Body Dendrogram_Heatmap)
               (cmd5 (path_join job_dir ''4.cgProfiles'') (path_join job_dir ''5.DendroPlot'')))
       (seq (subprocess_run w (Body Dendrogram_Heatmap) (cmd_heatmap job_dir))
            (touch (Body Dendrogram_Heatmap) (path_join job_dir ''DendroPlot_ok'')))))"

definition branch_A :: "world \<Rightarrow> string \<Rightarrow> string \<Rightarrow> pstate \<Rightarrow> flow \<times> pstate" where
  "branch_A w job_dir organism =
     and_then (query_profiling w job_dir organism)
    (and_then (ab_comparison_alleticDist w job_dir organism)
    (and_then (cgmlst_profiler w job_dir organism)
              (dendrogram_heatmap w job_dir)))"

subsection \<open>Branch B: any other organism\<close>

definition cmd3_simple :: "string \<Rightarrow> string \<Rightarrow> string list" where
  "cmd3_simple fasta_path out_dir3 =
     [''3.Antibiogram-Comparison.pl'', ''-i'', fasta_path, ''-o'', out_dir3, ''-p'', ''12'']"

definition simple_ab_comparison :: "world \<Rightarrow> string \<Rightarrow> pstate \<Rightarrow> flow \<times> pstate" where
  "simple_ab_comparison w job_dir =
     try_stage job_dir Simple_Ab_Comparison
       (seq (ensure_dir (Body Simple_Ab_Comparison) (path_join job_dir ''3.abProfilesCmp''))
       (seq (subprocess_run w (Body Simple_Ab_Comparison)
               (cmd3_simple (path_join job_dir ''contigFile.fa'')
                  (path_join job_dir ''3.abProfilesCmp'')))
            (touch (Body Simple_Ab_Comparison) (path_join job_dir ''abProfilesCmp_ok''))))"

text \<open>
  The loop over the data rows: a row with fewer than 7 fields is skipped, otherwise its
  first field is taken as the country (\<open>row[0]\<close>, an \<open>IndexError\<close> on an empty row). The
  result is the last country seen.
\<close>

fun scan_rows :: "string list list \<Rightarrow> string option \<Rightarrow> exn + string option" where
  "scan_rows [] country = Inr country"
| "scan_rows (row # rows) country =
     (if length row < 7 then scan_rows rows country
      else (case row of
              [] \<Rightarrow> Inl (Raised ''list index out of range'')
            | c # _ \<Rightarrow> scan_rows rows (Some c)))"

text \<open>
  The \<open>with\<close> block on \<open>hits_summary.tsv\<close>: \<open>next(reader)\<close> skips the header and raises
  \<open>StopIteration\<close> when there is none.
\<close>

definition parse_rows :: "world \<Rightarrow> string \<Rightarrow> exn + string option" where
  "parse_rows w path =
     (case read_rows w path of
        Inl e \<Rightarrow> Inl e
      | Inr [] \<Rightarrow> Inl StopIteration
      | Inr (header # rows) \<Rightarrow> scan_rows rows None)"

definition read_hits :: "world \<Rightarrow> place \<Rightarrow> string \<Rightarrow> stmt" where
  "read_hits w pl path s =
     emit pl (Read_rows path)
       (case parse_rows w path of Inl e \<Rightarrow> Inl e | Inr country \<Rightarrow> Inr (fsys s)) s"

definition parsing_hits_summary :: "world \<Rightarrow> string \<Rightarrow> pstate \<Rightarrow> flow \<times> pstate" where
  "parsing_hits_summary w job_dir =
     try_stage job_dir Parsing_hits_summary
       (read_hits w (Body Parsing_hits_summary)
          (path_join (path_join job_dir ''3.abProfilesCmp'') ''hits_summary.tsv''))"

definition branch_B :: "world \<Rightarrow> string \<Rightarrow> pstate \<Rightarrow> flow \<times> pstate" where
  "branch_B w job_dir = and_then (simple_ab_comparison w job_dir) (parsing_hits_summary w job_dir)"

subsection \<open>The whole run\<close>

text \<open>Step 4, outside every \<open>try\<close>: \<open>complete_ok\<close> and the empty \<open>country\<close> file.\<close>

definition finalize :: "string \<Rightarrow> stmt" where
  "finalize job_dir =
     seq (touch Final (path_join job_dir ''complete_ok''))
         (touch Final (path_join job_dir ''country''))"

definition branches :: "world \<Rightarrow> string \<Rightarrow> pstate \<Rightarrow> flow \<times> pstate" where
  "branches w job_dir =
     (case resolve_organism w job_dir of
        None \<Rightarrow> branch_B w job_dir
      | Some organism \<Rightarrow>
          if organism \<in> set known_organisms then branch_A w job_dir organism
          else branch_B w job_dir)"

text \<open>
  \<open>run_pipeline(job_dir)\<close>, started on the file system \<open>fs\<close> with an empty record. The
  result is the exception that leaves the function, or \<open>None\<close> when it returns. Reading
  \<open>formData.json\<close> for the e-mail address has no effect (the value is not used and
  every exception is dropped), so it is left out.
\<close>

definition run_pipeline :: "world \<Rightarrow> string \<Rightarrow> filesys \<Rightarrow> exn option \<times> pstate" where
  "run_pipeline w job_dir fs =
     (let job_dir = abspath fs job_dir in
      (case and_then (taxonomic_assignment w job_dir) (branches w job_dir)
              \<lparr>fsys = fs, trace = []\<rparr> of
         (Continue, s) \<Rightarrow> finalize job_dir s
       | (Return, s) \<Rightarrow> (None, s)
       | (Raise e, s) \<Rightarrow> (Some e, s)))"

section \<open>The worker (routers/api\_anitform.py, analysis\_worker)\<close>

text \<open>
  The body of the worker's loop for one dequeued folder: the pipeline runs, then
  \<open>complete_ok\<close> is created; an exception from either is written to
  \<open>pipeline_error.log\<close>. The result is the exception that leaves the loop, if any.
\<close>

definition process_job :: "world \<Rightarrow> string \<Rightarrow> filesys \<Rightarrow> exn option \<times> pstate" where
  "process_job w folder fs =
     (case (case run_pipeline w folder fs of
              (None, s) \<Rightarrow> touch Worker (path_join folder ''complete_ok'') s
            | (Some e, s) \<Rightarrow> (Some e, s)) of
        (None, s) \<Rightarrow> (None, s)
      | (Some e, s) \<Rightarrow> write_text Worker (path_join folder ''pipeline_error.log'') (str_exn e) s)"

section \<open>Job identifiers (routers/api\_anitform.py)\<close>

text \<open>
  What the process cannot determine: the \<open>k\<close>-th result of \<open>random.choice\<close> (an index
  into the pool, taken modulo its length) and the date string that the \<open>k\<close>-th call of
  \<open>datetime.now().strftime("%Y%m%d")\<close> gives.
\<close>

record chance =
  choice_index :: "nat \<Rightarrow> nat"
  today_str :: "nat \<Rightarrow> string"

text \<open>
  The state of the generator: the global dictionary \<open>serial_counters\<close>, and how many
  random choices and clock readings have been made.
\<close>

record gen_state =
  serial_counters :: "string \<rightharpoonup> nat"
  draws :: nat
  clock_reads :: nat

text \<open>\<open>string.digits + string.ascii_letters\<close>.\<close>

definition pool :: string where
  "pool = ''0123456789'' @ ''abcdefghijklmnopqrstuvwxyz'' @ ''ABCDEFGHIJKLMNOPQRSTUVWXYZ''"

definition generate_random_keys :: "chance \<Rightarrow> nat \<Rightarrow> gen_state \<Rightarrow> string \<times> gen_state" where
  "generate_random_keys ch len st =
     (map (\<lambda>k. pool ! (choice_index ch k mod length pool)) [draws st ..< draws st + len],
      st\<lparr>draws := draws st + len\<rparr>)"

text \<open>The format \<open>{n:02d}\<close>: at least two digits, padded with a zero.\<close>

definition fmt_02d :: "nat \<Rightarrow> string" where
  "fmt_02d n = (if n < 10 then ''0'' @ show_nat n else show_nat n)"

text \<open>
  \<open>generate_job_id\<close> calls itself when the folder of the candidate exists. The first
  argument is the number of calls the interpreter's recursion limit still allows; at 0
  the call raises \<open>RecursionError\<close>.
\<close>

fun generate_job_id ::
  "chance \<Rightarrow> filesys \<Rightarrow> nat \<Rightarrow> gen_state \<Rightarrow> (exn + string) \<times> gen_state" where
  "generate_job_id ch fs 0 st = (Inl RecursionError, st)"
| "generate_job_id ch fs (Suc depth) st =
     (let today = today_str ch (clock_reads st);
          n = (case serial_counters st today of None \<Rightarrow> 1 | Some n \<Rightarrow> n);
          seq = fmt_02d n;
          st1 = st\<lparr>serial_counters := (serial_counters st)(today \<mapsto> n + 1),
                   clock_reads := clock_reads st + 1\<rparr>;
          (k1, st2) = generate_random_keys ch 4 st1;
          (k2, st3) = generate_random_keys ch 4 st2;
          (k3, st4) = generate_random_keys ch 8 st3;
          job_id = today @ seq @ ''-'' @ k1 @ ''-'' @ k2 @ ''-'' @ k3
      in if \<not> path_exists fs (path_join ''anti_form_jobs'' job_id) then (Inr job_id, st4)
         else generate_job_id ch fs depth st4)"

text \<open>
  The format \<open>YYYYMMDDss-XXXX-XXXX-XXXXXXXX\<close> of the claim: four fields separated by
  dashes, ten digits, then 4, 4 and 8 characters of the pool.
\<close>

definition job_id_format :: "string \<Rightarrow> bool" where
  "job_id_format s =
     (case split_on CHR ''-'' s of
        [d, a, b, c] \<Rightarrow>
          length d = 10 \<and> list_all (\<lambda>x. x \<in> set ''0123456789'') d
          \<and> length a = 4 \<and> list_all (\<lambda>x. x \<in> set pool) a
          \<and> length b = 4 \<and> list_all (\<lambda>x. x \<in> set pool) b
          \<and> length c = 8 \<and> list_all (\<lambda>x. x \<in> set pool) c
      | _ \<Rightarrow> False)"

definition next_seq :: "gen_state \<Rightarrow> string \<Rightarrow> nat" where
  "next_seq st day = (case serial_counters st day of None \<Rightarrow> 1 | Some n \<Rightarrow> n)"

section \<open>Submission (routers/api\_anitform.py, upload\_file)\<close>

text \<open>
  \<open>re.match(r"^GC[AF]_[0-9]{9}(\.\d)?$", s)\<close>: the body of the pattern, and the \<open>$\<close> that
  also matches before one newline at the end. Among the first 256 code points \<open>\d\<close>
  matches the ten ASCII digits only.
\<close>

definition matches_gca :: "string \<Rightarrow> bool" where
  "matches_gca s =
     (take 4 s \<in> {''GCA_'', ''GCF_''}
      \<and> list_all (\<lambda>x. x \<in> set ''0123456789'') (take 9 (drop 4 s))
      \<and> (length s = 13
         \<or> (length s = 15 \<and> s ! 13 = CHR ''.'' \<and> s ! 14 \<in> set ''0123456789'')))"

definition validate_gca_code :: "string \<Rightarrow> bool" where
  "validate_gca_code gca_code =
     (matches_gca gca_code
      \<or> (gca_code \<noteq> [] \<and> last gca_code = CHR 0x0A \<and> matches_gca (butlast gca_code)))"

text \<open>
  \<open>download_genome_seq\<close>: a \<open>CalledProcessError\<close> of the download tool is turned into a
  \<open>RuntimeError\<close> that carries its \<open>stderr\<close>; any other exception goes through. The
  result is the exception raised, if any (the caller drops the returned output).
\<close>

definition download_genome_seq :: "world \<Rightarrow> string \<Rightarrow> string \<Rightarrow> exn option" where
  "download_genome_seq w gca_code output_folder =
     (case tool w [''perl'', ''/home/chieh/antibiogram_platform/bin/0.Download-GenomeSeq.pl'',
                   ''-i'', gca_code, ''-o'', output_folder] of
        None \<Rightarrow> None
      | Some (CalledProcessError m err) \<Rightarrow> Some (Raised (''Genome download failed: '' @ err))
      | Some e \<Rightarrow> Some e)"

text \<open>
  The form of a submission; the file is its name and the contents \<open>file.read()\<close> gives.
\<close>

record upload_form =
  up_email :: "string option"
  up_gcaCode :: string
  up_location :: "string option"
  up_country :: string
  up_file :: "(string \<times> string) option"

record upload_output =
  out_email :: "string option"
  out_gcaCode :: string
  out_location :: "string option"
  out_job_id :: string
  out_file_saved_path :: string
  out_message :: string

text \<open>
  How the handler ends: with its response, with an \<open>HTTPException\<close>, or with an exception
  nothing in the handler catches.
\<close>

datatype upload_result = Accepted upload_output | Rejected http_error | Crashed exn

text \<open>The library services: the text \<open>json.dump\<close> writes for a dictionary, and the mailer.\<close>

record services =
  json_dump :: "(string \<times> string) list \<Rightarrow> string"
  send_email :: "string \<Rightarrow> string list \<Rightarrow> string \<Rightarrow> exn option"

text \<open>The state of the server process: the generator, the disk and the queue of the workers.\<close>

record server =
  gen :: gen_state
  disk :: filesys
  analysis_queue :: "string list"

definition mail_subject :: "string \<Rightarrow> string" where
  "mail_subject job_id = ''crossNoso: Your job '' @ job_id @ '' is submitted.''"

definition mail_body :: "string \<Rightarrow> string" where
  "mail_body job_id =
     ''Dear User,<br><br>'' @ ''Your job ID is <b>'' @ job_id @ ''</b>.<br>''
     @ ''You can check the status via:<br>''
     @ ''<a href='' @ [CHR 0x22] @ ''http://localhost:8080/sampleoutput?folder='' @ job_id
     @ [CHR 0x22] @ ''>'' @ ''http://localhost:8080/sampleoutput?folder='' @ job_id
     @ ''</a><br><br>''
     @ ''Once finished, you will receive another email with results link.<br><br>''
     @ ''Thanks,<br>crossNoso Server''"

text \<open>Steps 2 to 6 of the handler, after the folder exists and the code has passed.\<close>

definition upload_store ::
  "world \<Rightarrow> services \<Rightarrow> upload_form \<Rightarrow> string \<Rightarrow> server \<Rightarrow> upload_result \<times> server" where
  "upload_store w sv form job_id srv =
     (let folder = path_join ''anti_form_jobs'' job_id;
          gca_value = (if py_strip (up_gcaCode form) \<noteq> [] then up_gcaCode form
                       else (case up_file form of Some (filename, contents) \<Rightarrow> filename
                             | None \<Rightarrow> []));
          data = [(''email'', case up_email form of Some a \<Rightarrow> a | None \<Rightarrow> []),
                  (''gcaCode'', gca_value),
                  (''location'', case up_location form of Some l \<Rightarrow> l | None \<Rightarrow> []),
                  (''country'', up_country form)];
          response = \<lparr> out_email = up_email form, out_gcaCode = up_gcaCode form,
                       out_location = up_location form, out_job_id = job_id,
                       out_file_saved_path = folder,
                       out_message = ''Your job '' @ job_id
                         @ '' has been submitted. Please check status later.'' \<rparr>
      in
      (case write_file (disk srv) (path_join folder ''formData.json'') (json_dump sv data) of
         Inl e \<Rightarrow> (Crashed e, srv)
       | Inr fs2 \<Rightarrow>
           (case (case up_file form of
                    Some (filename, contents) \<Rightarrow>
                      (case write_file fs2 (path_join folder ''contigFile.fa'') contents of
                         Inl e \<Rightarrow> Inl (HTTPException 500 (''Fasta saving failed: '' @ str_exn e))
                       | Inr fs3 \<Rightarrow> Inr fs3)
                  | None \<Rightarrow>
                      (case download_genome_seq w (up_gcaCode form) folder of
                         Some e \<Rightarrow> Inl (HTTPException 500 (''Genome download failed: '' @ str_exn e))
                       | None \<Rightarrow> Inr fs2)) of
              Inl h \<Rightarrow> (Rejected h, srv\<lparr>disk := fs2\<rparr>)
            | Inr fs3 \<Rightarrow>
                (let srv3 = srv\<lparr>disk := fs3, analysis_queue := analysis_queue srv @ [folder]\<rparr> in
                 (case up_email form of
                    None \<Rightarrow> (Accepted response, srv3)
                  | Some addr \<Rightarrow>
                      if addr = [] then (Accepted response, srv3)
                      else (case send_email sv (mail_subject job_id) [addr] (mail_body job_id) of
                              Some e \<Rightarrow> (Rejected (HTTPException 502
                                           (''Email sending failed: '' @ str_exn e)), srv3)
                            | None \<Rightarrow> (Accepted response, srv3)))))))"

text \<open>
  \<open>upload_file\<close>: step 1 allocates the identifier and creates the folder; only then is
  the accession code checked.
\<close>

definition upload_file ::
  "chance \<Rightarrow> world \<Rightarrow> services \<Rightarrow> nat \<Rightarrow> upload_form \<Rightarrow> server \<Rightarrow> upload_result \<times> server" where
  "upload_file ch w sv depth form srv =
     (case generate_job_id ch (disk srv) depth (gen srv) of
        (Inl e, g) \<Rightarrow> (Crashed e, srv\<lparr>gen := g\<rparr>)
      | (Inr job_id, g) \<Rightarrow>
          (case makedirs (disk srv) (path_join ''anti_form_jobs'' job_id) of
             Inl e \<Rightarrow> (Crashed e, srv\<lparr>gen := g\<rparr>)
           | Inr fs1 \<Rightarrow>
               if up_gcaCode form \<noteq> [] \<and> \<not> validate_gca_code (up_gcaCode form)
               then (Rejected (HTTPException 400 ''Invalid GCA Code format.''),
                     srv\<lparr>gen := g, disk := fs1\<rparr>)
               else upload_store w sv form job_id (srv\<lparr>gen := g, disk := fs1\<rparr>)))"

section \<open>The worker pool (routers/api\_anitform.py)\<close>

definition ANALYSIS_WORKER_COUNT :: nat where
  "ANALYSIS_WORKER_COUNT = 5"

text \<open>
  A worker task is at \<open>await queue.get()\<close> (\<open>Idle\<close>), or it awaits the executor that
  runs the pipeline for the folder it took (\<open>Executing\<close>), or it has ended because an
  exception left its loop (\<open>Ended\<close>).
\<close>

datatype worker = Idle | Executing string | Ended

record pool_state =
  pending :: "string list"
  workers :: "worker list"

text \<open>\<open>start_analysis_workers\<close>: an empty queue and \<open>ANALYSIS_WORKER_COUNT\<close> tasks.\<close>

definition start_analysis_workers :: pool_state where
  "start_analysis_workers = \<lparr> pending = [], workers = replicate ANALYSIS_WORKER_COUNT Idle \<rparr>"

text \<open>
  The steps, in any interleaving: a submission puts a folder on the queue; an idle
  worker takes the first folder and hands it to the executor; a worker whose pipeline
  has finished goes back to the queue; a worker whose handler raised ends.
\<close>

inductive pool_step :: "pool_state \<Rightarrow> pool_state \<Rightarrow> bool" where
  put: "pool_step s (s\<lparr>pending := pending s @ [folder]\<rparr>)"
| get: "i < length (workers s) \<Longrightarrow> workers s ! i = Idle \<Longrightarrow> pending s = folder # rest
        \<Longrightarrow> pool_step s (s\<lparr>pending := rest, workers := (workers s)[i := Executing folder]\<rparr>)"
| task_done: "i < length (workers s) \<Longrightarrow> workers s ! i = Executing folder
        \<Longrightarrow> pool_step s (s\<lparr>workers := (workers s)[i := Idle]\<rparr>)"
| task_ended: "i < length (workers s) \<Longrightarrow> workers s ! i = Executing folder
        \<Longrightarrow> pool_step s (s\<lparr>workers := (workers s)[i := Ended]\<rparr>)"

inductive reachable :: "pool_state \<Rightarrow> bool" where
  start: "reachable start_analysis_workers"
| step: "reachable s \<Longrightarrow> pool_step s s' \<Longrightarrow> reachable s'"

text \<open>The folders whose pipelines are executing.\<close>

fun executing_of :: "worker \<Rightarrow> string list" where
  "executing_of (Executing folder) = [folder]"
| "executing_of w = []"

definition executing :: "pool_state \<Rightarrow> string list" where
  "executing s = concat (map executing_of (workers s))"

section \<open>Runs as records of operations\<close>

text \<open>
  The notions used to state what a run of the pipeline does. \<open>fs_le fs fs'\<close>: the file
  system only grew (same working directory, no directory and no file went away).
\<close>

definition fs_le :: "filesys \<Rightarrow> filesys \<Rightarrow> bool" where
  "fs_le fs fs' = (cwd fs' = cwd fs \<and> dirs fs \<subseteq> dirs fs' \<and> dom (files fs) \<subseteq> dom (files fs'))"

text \<open>
  An event is faithful to the world when the result recorded for a tool invocation or
  for the reading of the hits table is the one the world gives.
\<close>

definition parse_result :: "world \<Rightarrow> string \<Rightarrow> exn option" where
  "parse_result w p = (case parse_rows w p of Inl e \<Rightarrow> Some e | Inr country \<Rightarrow> None)"

fun faithful :: "world \<Rightarrow> event \<Rightarrow> bool" where
  "faithful w (pl, Run cmd, r) = (r = tool w cmd)"
| "faithful w (pl, Read_rows p, r) = (r = parse_result w p)"
| "faithful w (pl, oper, r) = True"

text \<open>
  \<open>passed script\<close>: the operations of \<open>script\<close>, each one done without an exception.
  \<open>stmt_post\<close> says what a sequence of statements with the operations \<open>ops\<close> has done:
  all of them in order, or a first part of them and one more that raised.
\<close>

definition passed :: "(place \<times> oper) list \<Rightarrow> event list" where
  "passed script = map (\<lambda>(pl, oper). (pl, oper, None)) script"

definition stmt_post ::
  "world \<Rightarrow> place \<Rightarrow> oper list \<Rightarrow> pstate \<Rightarrow> exn option \<Rightarrow> pstate \<Rightarrow> bool" where
  "stmt_post w pl ops s x s' =
     (fs_le (fsys s) (fsys s') \<and>
      (\<exists>evs. trace s' = trace s @ evs \<and> (\<forall>ev\<in>set evs. faithful w ev) \<and>
         (case x of
            None \<Rightarrow> evs = passed (map (Pair pl) ops)
                     \<and> (\<forall>p. Touch p \<in> set ops \<longrightarrow> path_exists (fsys s') p)
          | Some e \<Rightarrow> (\<exists>n<length ops.
                        evs = passed (map (Pair pl) (take n ops)) @ [(pl, ops ! n, Some e)]))))"

definition stmt_spec :: "world \<Rightarrow> place \<Rightarrow> oper list \<Rightarrow> stmt \<Rightarrow> bool" where
  "stmt_spec w pl ops a = (\<forall>s x s'. a s = (x, s') \<longrightarrow> stmt_post w pl ops s x s')"

text \<open>
  \<open>failed_run\<close>: the record of stages that stop at operation \<open>n\<close> of the script, in
  stage \<open>st\<close>, with exception \<open>e\<close>, followed by the handler's write to \<open>error.log\<close> with
  result \<open>r\<close>. \<open>flow_spec\<close> relates the way a group of stages leaves to its record.
\<close>

definition failed_run ::
  "string \<Rightarrow> (place \<times> oper) list \<Rightarrow> nat \<Rightarrow> stage \<Rightarrow> exn \<Rightarrow> exn option \<Rightarrow> event list" where
  "failed_run jd script n st e r =
     passed (take n script) @ [(Body st, snd (script ! n), Some e), (Handler st, log_oper jd st e, r)]"

definition flow_spec ::
  "world \<Rightarrow> string \<Rightarrow> (place \<times> oper) list \<Rightarrow> pstate \<Rightarrow> flow \<Rightarrow> pstate \<Rightarrow> bool" where
  "flow_spec w jd script s fl s' =
     (fs_le (fsys s) (fsys s') \<and>
      (\<exists>evs. trace s' = trace s @ evs \<and> (\<forall>ev\<in>set evs. faithful w ev) \<and>
         (case fl of
            Continue \<Rightarrow> evs = passed script
                        \<and> (\<forall>pl p. (pl, Touch p) \<in> set script \<longrightarrow> path_exists (fsys s') p)
          | Return \<Rightarrow>
              (\<exists>n st e. n < length script \<and> fst (script ! n) = Body st
                 \<and> evs = failed_run jd script n st e None
                 \<and> (\<exists>prior. read_file (fsys s') (path_join jd ''error.log'')
                               = Some (prior @ failure_text st e)))
          | Raise e' \<Rightarrow>
              (\<exists>n st e. n < length script \<and> fst (script ! n) = Body st
                 \<and> evs = failed_run jd script n st e (Some e')))))"

definition stage_like ::
  "world \<Rightarrow> string \<Rightarrow> (place \<times> oper) list \<Rightarrow> (pstate \<Rightarrow> flow \<times> pstate) \<Rightarrow> bool" where
  "stage_like w jd script f = (\<forall>s fl s'. f s = (fl, s') \<longrightarrow> flow_spec w jd script s fl s')"

text \<open>
  The operations of the stages in the order of the source: stage 1, then branch A for
  one of the five organisms or branch B otherwise, and the finalization.
\<close>

definition script_tax :: "string \<Rightarrow> (place \<times> oper) list" where
  "script_tax jd =
     map (Pair (Body Taxonomic_Assignment))
       [Makedirs (path_join jd ''1.taxAssign''),
        Run (cmd1 (path_join jd ''contigFile.fa'') (path_join jd ''1.taxAssign'')),
        Touch (path_join jd ''taxAssign_ok'')]"

definition script_A :: "string \<Rightarrow> string \<Rightarrow> (place \<times> oper) list" where
  "script_A jd organism =
     map (Pair (Body Query_Profiling))
       [Makedirs (path_join jd ''2.QueryProfile''),
        Run (cmd2 (path_join jd ''contigFile.fa'') organism (path_join jd ''2.QueryProfile'')),
        Touch (path_join jd ''queryProfile_ok'')]
     @ map (Pair (Body Ab_Comparison_alleticDist))
       [Makedirs (path_join jd ''3.abProfilesCmp''),
        Run (cmd3 (path_join jd ''contigFile.fa'')
               (path_join (path_join jd ''2.QueryProfile'') ''alleleMatrix.1'') organism
               (path_join jd ''3.abProfilesCmp'')),
        Touch (path_join jd ''abProfilesCmp_ok'')]
     @ map (Pair (Body CgMLST_Profiler))
       [Makedirs (path_join jd ''4.cgProfiles''),
        Run (cmd4 (path_join jd ''2.QueryProfile'')
               (path_join (path_join jd ''3.abProfilesCmp'') ''hits_table.tsv'') organism
               (path_join jd ''4.cgProfiles'')),
        Touch (path_join jd ''cgProfiles_ok'')]
     @ map (Pair (Body Dendrogram_Heatmap))
       [Makedirs (path_join jd ''5.DendroPlot''),
        Run (cmd5 (path_join jd ''4.cgProfiles'') (path_join jd ''5.DendroPlot'')),
        Run (cmd_heatmap jd),
        Touch (path_join jd ''DendroPlot_ok'')]"

definition script_B :: "string \<Rightarrow> (place \<times> oper) list" where
  "script_B jd =
     map (Pair (Body Simple_Ab_Comparison))
       [Makedirs (path_join jd ''3.abProfilesCmp''),
        Run (cmd3_simple (path_join jd ''contigFile.fa'') (path_join jd ''3.abProfilesCmp'')),
        Touch (path_join jd ''abProfilesCmp_ok'')]
     @ map (Pair (Body Parsing_hits_summary))
       [Read_rows (path_join (path_join jd ''3.abProfilesCmp'') ''hits_summary.tsv'')]"

definition script :: "world \<Rightarrow> string \<Rightarrow> (place \<times> oper) list" where
  "script w jd =
     script_tax jd @
     (case resolve_organism w jd of
        None \<Rightarrow> script_B jd
      | Some organism \<Rightarrow>
          if organism \<in> set known_organisms then script_A jd organism else script_B jd)"

definition script_final :: "string \<Rightarrow> (place \<times> oper) list" where
  "script_final jd =
     map (Pair Final) [Touch (path_join jd ''complete_ok''), Touch (path_join jd ''country'')]"

text \<open>The files created by \<open>open(path, "w").close()\<close> in a record, in order of creation.\<close>

fun created_by :: "event \<Rightarrow> string list" where
  "created_by (pl, Touch p, None) = [p]"
| "created_by ev = []"

definition created :: "event list \<Rightarrow> string list" where
  "created tr = concat (map created_by tr)"

section \<open>Scenarios\<close>

text \<open>
  A freshly submitted job \<open>J1\<close>, as the upload handler leaves it, and a world in which
  the first tool exits with a non-zero status.
\<close>

definition fs_new_job :: filesys where
  "fs_new_job =
     \<lparr> cwd = [''srv''],
       dirs = {[''srv''], [''srv'', ''anti_form_jobs''], [''srv'', ''anti_form_jobs'', ''J1'']},
       files = [[''srv'', ''anti_form_jobs'', ''J1'', ''formData.json''] \<mapsto> ''{}'',
                [''srv'', ''anti_form_jobs'', ''J1'', ''contigFile.fa''] \<mapsto> ''>c1''] \<rparr>"

definition world_tax_fails :: world where
  "world_tax_fails =
     \<lparr> tool = (\<lambda>cmd. if take 1 cmd = [''1.Taxonomic-Assignments.pl'']
                      then Some (CalledProcessError ''Command returned non-zero exit status 2.'' []) else None),
       read_text = (\<lambda>p. Inl (OSError 2 ''No such file or directory'' p)),
       read_rows = (\<lambda>p. Inl (OSError 2 ''No such file or directory'' p)) \<rparr>"

text \<open>The job \<open>J1\<close> with a directory in the place of \<open>error.log\<close>.\<close>

definition fs_log_blocked :: filesys where
  "fs_log_blocked =
     \<lparr> cwd = [''srv''],
       dirs = {[''srv''], [''srv'', ''anti_form_jobs''], [''srv'', ''anti_form_jobs'', ''J1''],
               [''srv'', ''anti_form_jobs'', ''J1'', ''error.log'']},
       files = [[''srv'', ''anti_form_jobs'', ''J1'', ''formData.json''] \<mapsto> ''{}'',
                [''srv'', ''anti_form_jobs'', ''J1'', ''contigFile.fa''] \<mapsto> ''>c1''] \<rparr>"

text \<open>
  A world in which every tool succeeds and the classifier reports
  \<open>Acinetobacter_baumannii\<close>, and one in which it reports an unknown species and the
  hits table has a header, a row of two fields and a row of seven fields.
\<close>

definition world_ab :: world where
  "world_ab =
     \<lparr> tool = (\<lambda>cmd. None),
       read_text = (\<lambda>p. Inr (''Acinetobacter_baumannii'' @ [CHR 0x09] @ ''0.98'' @ [CHR 0x0A])),
       read_rows = (\<lambda>p. Inr []) \<rparr>"

definition world_unknown :: world where
  "world_unknown =
     \<lparr> tool = (\<lambda>cmd. None),
       read_text = (\<lambda>p. Inr (''Unknown_species'' @ [CHR 0x09] @ ''0.51'' @ [CHR 0x0A])),
       read_rows = (\<lambda>p. Inr [[''Country'', ''Strain'', ''c3'', ''c4'', ''c5'', ''c6'', ''c7''],
                             [''Taiwan'', ''S1''],
                             [''Japan'', ''S2'', ''a'', ''b'', ''c'', ''d'', ''e'']]) \<rparr>"

text \<open>
  A source of chance on 1 January 2025, the generator before its first and before its
  hundredth identifier of that day, a submission with a malformed accession code, and
  the server at its start.
\<close>

definition chance_example :: chance where
  "chance_example = \<lparr> choice_index = (\<lambda>k. 7 * k + 3), today_str = (\<lambda>k. ''20250101'') \<rparr>"

definition gen_hundredth :: gen_state where
  "gen_hundredth = \<lparr> serial_counters = [''20250101'' \<mapsto> 100], draws = 0, clock_reads = 0 \<rparr>"

definition gen_fresh :: gen_state where
  "gen_fresh = \<lparr> serial_counters = Map.empty, draws = 0, clock_reads = 0 \<rparr>"

definition services_example :: services where
  "services_example = \<lparr> json_dump = (\<lambda>data. concat (map (\<lambda>(k, v). k @ ''='' @ v @ '';'') data)),
                        send_email = (\<lambda>subject recipients body. None) \<rparr>"

definition form_bad_code :: upload_form where
  "form_bad_code = \<lparr> up_email = None, up_gcaCode = ''GCA_12345'', up_location = None,
                     up_country = ''-1'', up_file = None \<rparr>"

definition server_start :: server where
  "server_start = \<lparr> gen = gen_fresh, disk = fs_new_job, analysis_queue = [] \<rparr>"

section \<open>Theorems\<close>

subsection \<open>Paths\<close>

lemma split_on_nonempty: "split_on c s \<noteq> []"
  by (induction s) (auto split: list.splits)

lemma split_on_append: "split_on c (a @ c # b) = split_on c a @ split_on c b"
proof (induction a)
  case Nil
  show ?case by simp
next
  case (Cons x a)
  then show ?case using split_on_nonempty [of c a]
    by (cases "split_on c a") (auto split: list.splits)
qed

lemma split_on_no_sep: "c \<notin> set s \<Longrightarrow> split_on c s = [s]"
  by (induction s) auto

lemma walk_append:
  "walk fs k (xs @ ys) = (case walk fs k xs of None \<Rightarrow> None | Some k' \<Rightarrow> walk fs k' ys)"
  by (induction xs arbitrary: k) auto

text \<open>A plain name joined to an existing directory resolves to the entry of that name in it.\<close>

lemma lookup_child:
  assumes f: "folder \<noteq> []" and d: "path_isdir fs folder"
    and n: "CHR ''/'' \<notin> set name" "name \<noteq> []" "name \<noteq> ''.''" "name \<noteq> ''..''"
  shows "\<exists>d. lookup fs folder = Some d \<and> is_dir fs d
             \<and> lookup fs (path_join folder name) = Some (d @ [name])"
proof -
  from d obtain k where k: "lookup fs folder = Some k" "is_dir fs k"
    by (auto simp: path_isdir_def split: option.splits)
  from n have hn: "hd name \<noteq> CHR ''/''" by (cases name) auto
  have st: "\<And>r. start_of fs (folder @ r) = start_of fs folder"
    using f by (simp add: start_of_def)
  show ?thesis
  proof (cases "last folder = CHR ''/''")
    case True
    with f obtain xs where xs: "folder = xs @ ''/''"
      by (metis append_butlast_last_id)
    have j: "path_join folder name = xs @ CHR ''/'' # name"
      using True f hn n by (simp add: path_join_def xs)
    have s1: "split_on CHR ''/'' folder = split_on CHR ''/'' xs @ [[]]"
      unfolding xs using split_on_append [of "CHR ''/''" xs "[]"] by simp
    have s2: "split_on CHR ''/'' (path_join folder name) = split_on CHR ''/'' xs @ [name]"
      unfolding j using split_on_append [of "CHR ''/''" xs name] n by (simp add: split_on_no_sep)
    have st2: "start_of fs (path_join folder name) = start_of fs folder"
      using st [of name] True f hn n by (simp add: path_join_def)
    from k(1) f obtain m where m: "walk fs (start_of fs folder) (split_on CHR ''/'' xs) = Some m"
      and mk: "walk fs m [[]] = Some k"
      by (auto simp: lookup_def s1 walk_append split: option.splits)
    from mk have "m = k" "is_dir fs m" by (auto split: if_splits)
    moreover have "path_join folder name \<noteq> []" unfolding j by simp
    ultimately have "lookup fs (path_join folder name) = Some (k @ [name])"
      using m n by (simp add: lookup_def s2 st2 walk_append)
    with k show ?thesis by blast
  next
    case False
    have j: "path_join folder name = folder @ CHR ''/'' # name"
      using False f hn n by (simp add: path_join_def)
    have s2: "split_on CHR ''/'' (path_join folder name) = split_on CHR ''/'' folder @ [name]"
      unfolding j using split_on_append [of "CHR ''/''" folder name] n by (simp add: split_on_no_sep)
    have st2: "start_of fs (path_join folder name) = start_of fs folder"
      unfolding j using st [of "CHR ''/'' # name"] by simp
    have "path_join folder name \<noteq> []" unfolding j by simp
    with k f have "lookup fs (path_join folder name) = Some (k @ [name])"
      using n by (simp add: lookup_def s2 st2 walk_append)
    with k show ?thesis by blast
  qed
qed

lemma jobs_folder_nonempty: "path_join ''anti_form_jobs'' job_id \<noteq> []"
  by (simp add: path_join_def)

subsection \<open>Status query\<close>

text \<open>
  C2, as stated, fails: for a job directory with \<open>error.log\<close> and without \<open>complete_ok\<close>
  the status query answers \<open>running\<close>; no answer \<open>failed\<close> exists.
\<close>

theorem check_status_failed_counterexample:
  "path_isdir fs_failed_job (path_join ''anti_form_jobs'' ''J1'')
   \<and> path_exists fs_failed_job (path_join (path_join ''anti_form_jobs'' ''J1'') ''error.log'')
   \<and> \<not> path_exists fs_failed_job (path_join (path_join ''anti_form_jobs'' ''J1'') ''complete_ok'')
   \<and> check_status fs_failed_job ''J1'' = Inr [(''status'', ''running''), (''job_id'', ''J1'')]
   \<and> map_of (projr (check_status fs_failed_job ''J1'')) ''status'' \<noteq> Some ''failed''"
  by (simp add: check_status_def path_isdir_def path_exists_def lookup_def start_of_def
      path_join_def fs_failed_job_def is_dir_def)

text \<open>
  C2, amended: for every job whose directory exists, the status is derived from the
  presence of \<open>complete_ok\<close> alone: \<open>done\<close> when it is present, \<open>running\<close> otherwise,
  whether or not \<open>error.log\<close> is present.
\<close>

theorem check_status_complete_ok_only:
  assumes "path_isdir fs (path_join ''anti_form_jobs'' job_id)"
  shows "check_status fs job_id =
           Inr [(''status'',
                 if path_exists fs (path_join (path_join ''anti_form_jobs'' job_id) ''complete_ok'')
                 then ''done'' else ''running''),
                (''job_id'', job_id)]"
  using assms by (simp add: check_status_def)

theorem check_status_complete_ok_only_witness:
  "path_isdir fs_failed_job (path_join ''anti_form_jobs'' ''J1'')
   \<and> check_status fs_failed_job ''J1'' = Inr [(''status'', ''running''), (''job_id'', ''J1'')]"
proof -
  have d: "path_isdir fs_failed_job (path_join ''anti_form_jobs'' ''J1'')"
    by (simp add: path_isdir_def lookup_def start_of_def path_join_def fs_failed_job_def
        is_dir_def)
  have "\<not> path_exists fs_failed_job (path_join (path_join ''anti_form_jobs'' ''J1'') ''complete_ok'')"
    by (simp add: path_exists_def lookup_def start_of_def path_join_def fs_failed_job_def
        is_dir_def)
  then show ?thesis using d check_status_complete_ok_only [OF d] by simp
qed

subsection \<open>File download\<close>

text \<open>
  The handler itself joins folder and filename and tests only that the result exists:
  given a filename with parent-directory components it answers with a path outside the
  job directory. Such a filename does not come through the route.
\<close>

lemma download_file_joins_unchecked:
  "download_file fs_two_jobs ''J1'' ''../J2/formData.json''
     = Inr (FileResponse ''anti_form_jobs/J1/../J2/formData.json'' ''../J2/formData.json'')"
  "lookup fs_two_jobs ''anti_form_jobs/J1/../J2/formData.json''
     = Some [''srv'', ''anti_form_jobs'', ''J2'', ''formData.json'']"
  "download_file fs_two_jobs ''J1'' ''..'' = Inr (FileResponse ''anti_form_jobs/J1/..'' ''..'')"
  by code_simp+

lemma split_path_join:
  assumes f: "folder \<noteq> []" and n: "CHR ''/'' \<notin> set name" "name \<noteq> []"
  shows "\<exists>pre. split_on CHR ''/'' (path_join folder name) = pre @ [name]"
proof -
  from n have hn: "hd name \<noteq> CHR ''/''" by (cases name) auto
  show ?thesis
  proof (cases "last folder = CHR ''/''")
    case True
    with f obtain xs where xs: "folder = xs @ ''/''"
      by (metis append_butlast_last_id)
    have "path_join folder name = xs @ CHR ''/'' # name"
      using True f hn n by (simp add: path_join_def xs)
    then show ?thesis
      using split_on_append [of "CHR ''/''" xs name] n by (simp add: split_on_no_sep)
  next
    case False
    have "path_join folder name = folder @ CHR ''/'' # name"
      using False f hn n by (simp add: path_join_def)
    then show ?thesis
      using split_on_append [of "CHR ''/''" folder name] n by (simp add: split_on_no_sep)
  qed
qed

lemma download_route_sent:
  assumes sent: "download_route fs job_id filename = File_sent path contents"
  shows "path = path_join (path_join ''anti_form_jobs'' job_id) filename
       \<and> resolves_inside fs (path_join ''anti_form_jobs'' job_id) path
       \<and> (\<exists>d. lookup fs (path_join ''anti_form_jobs'' job_id) = Some d \<and> is_dir fs d
              \<and> lookup fs path = Some (d @ [filename])
              \<and> files fs (d @ [filename]) = Some contents)"
proof -
  let ?folder = "path_join ''anti_form_jobs'' job_id"
  from sent have seg: "path_segment filename"
    by (auto simp: download_route_def split: if_splits)
  from sent seg obtain name where df: "download_file fs job_id filename = Inr (FileResponse path name)"
    and reg: "regular_file fs path = Some contents"
    by (auto simp: download_route_def split: if_splits sum.splits http_error.splits
        response.splits option.splits)
  from df have d: "path_isdir fs ?folder" and p: "path = path_join ?folder filename"
    by (auto simp: download_file_def Let_def split: if_splits)
  from seg have n: "CHR ''/'' \<notin> set filename" "filename \<noteq> []"
    by (simp_all add: path_segment_def)
  from split_path_join [OF jobs_folder_nonempty [of job_id] n]
  have "last (split_on CHR ''/'' path) = filename" unfolding p by auto
  with reg have nd: "filename \<noteq> ''.''" "filename \<noteq> ''..''"
    by (auto simp: regular_file_def split: option.splits if_splits)
  from lookup_child [OF jobs_folder_nonempty [of job_id] d n nd]
  obtain k where k: "lookup fs ?folder = Some k" "is_dir fs k"
    "lookup fs path = Some (k @ [filename])" unfolding p by blast
  then have "resolves_inside fs ?folder path"
    by (simp add: resolves_inside_def below_def)
  moreover from reg k have "files fs (k @ [filename]) = Some contents"
    by (auto simp: regular_file_def split: if_splits)
  ultimately show ?thesis using p k by blast
qed

text \<open>
  C3. A request for job \<open>job_id\<close> and \<open>filename\<close> is answered with a file only when the
  joined path resolves inside the job directory: the file sent is the regular file of
  that name directly in the job's folder. A filename that resolves elsewhere is never
  served: one with a \<open>/\<close> finds no route (404), and \<open>.\<close> or \<open>..\<close> name a directory,
  which is not sent (500).
\<close>

theorem download_route_inside_job_directory:
  "(download_route fs job_id filename = File_sent path contents \<longrightarrow>
      path = path_join (path_join ''anti_form_jobs'' job_id) filename
      \<and> resolves_inside fs (path_join ''anti_form_jobs'' job_id) path
      \<and> (\<exists>d. lookup fs (path_join ''anti_form_jobs'' job_id) = Some d \<and> is_dir fs d
             \<and> lookup fs path = Some (d @ [filename])
             \<and> files fs (d @ [filename]) = Some contents))
   \<and> (\<not> resolves_inside fs (path_join ''anti_form_jobs'' job_id)
            (path_join (path_join ''anti_form_jobs'' job_id) filename)
        \<longrightarrow> (\<forall>p c. download_route fs job_id filename \<noteq> File_sent p c))"
proof (intro conjI impI allI notI)
  assume "download_route fs job_id filename = File_sent path contents"
  from download_route_sent [OF this]
  show "path = path_join (path_join ''anti_form_jobs'' job_id) filename"
    and "resolves_inside fs (path_join ''anti_form_jobs'' job_id) path"
    and "\<exists>d. lookup fs (path_join ''anti_form_jobs'' job_id) = Some d \<and> is_dir fs d
             \<and> lookup fs path = Some (d @ [filename])
             \<and> files fs (d @ [filename]) = Some contents"
    by blast+
next
  fix p c
  assume out: "\<not> resolves_inside fs (path_join ''anti_form_jobs'' job_id)
            (path_join (path_join ''anti_form_jobs'' job_id) filename)"
    and "download_route fs job_id filename = File_sent p c"
  from download_route_sent [OF this(2)] out show False by blast
qed

text \<open>The route at a file of the job, at \<open>..\<close>, at a path with \<open>/\<close> and at a missing file.\<close>

lemma download_route_examples:
  "download_route fs_two_jobs ''J2'' ''formData.json''
     = File_sent ''anti_form_jobs/J2/formData.json'' ''{email: someone@example.org}''"
  "download_route fs_two_jobs ''J1'' ''..'' = Error_reply 500"
  "download_route fs_two_jobs ''J1'' ''../J2/formData.json'' = Error_reply 404"
  "download_route fs_two_jobs ''J1'' ''formData.json'' = Error_reply 404"
  by code_simp+

theorem download_route_inside_job_directory_witness:
  "download_route fs_two_jobs ''J2'' ''formData.json''
     = File_sent ''anti_form_jobs/J2/formData.json'' ''{email: someone@example.org}''
   \<and> resolves_inside fs_two_jobs (path_join ''anti_form_jobs'' ''J2'')
       ''anti_form_jobs/J2/formData.json''"
  using download_route_inside_job_directory
      [of fs_two_jobs "''J2''" "''formData.json''" "''anti_form_jobs/J2/formData.json''"
          "''{email: someone@example.org}''"]
    download_route_examples(1)
  by blast

subsection \<open>The worker and the terminal markers\<close>

lemma failed_job_returns:
  "fst (process_job world_tax_fails ''anti_form_jobs/J1'' fs_new_job) = None"
  by code_simp

lemma failed_job_trace:
  "trace (snd (process_job world_tax_fails ''anti_form_jobs/J1'' fs_new_job)) =
     [(Body Taxonomic_Assignment, Makedirs ''/srv/anti_form_jobs/J1/1.taxAssign'', None),
      (Body Taxonomic_Assignment,
       Run (cmd1 ''/srv/anti_form_jobs/J1/contigFile.fa'' ''/srv/anti_form_jobs/J1/1.taxAssign''),
       Some (CalledProcessError ''Command returned non-zero exit status 2.'' [])),
      (Handler Taxonomic_Assignment,
       Write ''/srv/anti_form_jobs/J1/error.log''
         (failure_text Taxonomic_Assignment (CalledProcessError ''Command returned non-zero exit status 2.'' [])),
       None),
      (Worker, Touch ''anti_form_jobs/J1/complete_ok'', None)]"
  by code_simp

lemma failed_job_error_log:
  "path_exists (fsys (snd (process_job world_tax_fails ''anti_form_jobs/J1'' fs_new_job)))
     ''anti_form_jobs/J1/error.log''"
  by code_simp

lemma failed_job_complete_ok:
  "path_exists (fsys (snd (process_job world_tax_fails ''anti_form_jobs/J1'' fs_new_job)))
     ''anti_form_jobs/J1/complete_ok''"
  by code_simp

lemma failed_job_status:
  "check_status (fsys (snd (process_job world_tax_fails ''anti_form_jobs/J1'' fs_new_job))) ''J1''
     = Inr [(''status'', ''done''), (''job_id'', ''J1'')]"
  by code_simp

text \<open>
  C1 does not hold of the code. When the first tool fails, \<open>run_pipeline\<close> writes
  \<open>error.log\<close> and returns; the worker then creates \<open>complete_ok\<close> all the same. Afterwards
  the job directory holds both terminal markers, and the status query answers \<open>done\<close>.
\<close>

theorem worker_failed_job_both_markers:
  "fst (process_job world_tax_fails ''anti_form_jobs/J1'' fs_new_job) = None
   \<and> trace (snd (process_job world_tax_fails ''anti_form_jobs/J1'' fs_new_job)) =
       [(Body Taxonomic_Assignment, Makedirs ''/srv/anti_form_jobs/J1/1.taxAssign'', None),
        (Body Taxonomic_Assignment,
         Run (cmd1 ''/srv/anti_form_jobs/J1/contigFile.fa'' ''/srv/anti_form_jobs/J1/1.taxAssign''),
         Some (CalledProcessError ''Command returned non-zero exit status 2.'' [])),
        (Handler Taxonomic_Assignment,
         Write ''/srv/anti_form_jobs/J1/error.log''
           (failure_text Taxonomic_Assignment
              (CalledProcessError ''Command returned non-zero exit status 2.'' [])),
         None),
        (Worker, Touch ''anti_form_jobs/J1/complete_ok'', None)]
   \<and> path_exists (fsys (snd (process_job world_tax_fails ''anti_form_jobs/J1'' fs_new_job)))
       ''anti_form_jobs/J1/error.log''
   \<and> path_exists (fsys (snd (process_job world_tax_fails ''anti_form_jobs/J1'' fs_new_job)))
       ''anti_form_jobs/J1/complete_ok''
   \<and> check_status (fsys (snd (process_job world_tax_fails ''anti_form_jobs/J1'' fs_new_job)))
       ''J1'' = Inr [(''status'', ''done''), (''job_id'', ''J1'')]"
  using failed_job_returns failed_job_trace failed_job_error_log failed_job_complete_ok
    failed_job_status
  by blast

subsection \<open>The pipeline\<close>

lemma fs_le_refl: "fs_le fs fs"
  by (simp add: fs_le_def)

lemma fs_le_trans: "fs_le a b \<Longrightarrow> fs_le b c \<Longrightarrow> fs_le a c"
  unfolding fs_le_def by (metis order_trans)

lemma is_dir_mono: "fs_le fs fs' \<Longrightarrow> is_dir fs k \<Longrightarrow> is_dir fs' k"
  by (auto simp: fs_le_def is_dir_def)

lemma walk_mono: "fs_le fs fs' \<Longrightarrow> walk fs c cs = Some k \<Longrightarrow> walk fs' c cs = Some k"
proof (induction cs arbitrary: c)
  case Nil
  then show ?case by simp
next
  case (Cons x cs)
  from Cons.prems have d: "is_dir fs c" by (auto split: if_splits)
  then have d': "is_dir fs' c" using Cons.prems(1) by (rule is_dir_mono [rotated])
  from Cons.prems(2) d d' Cons.IH [OF Cons.prems(1)] show ?case
    by (auto split: if_splits)
qed

lemma lookup_mono: "fs_le fs fs' \<Longrightarrow> lookup fs p = Some k \<Longrightarrow> lookup fs' p = Some k"
  by (auto simp: lookup_def start_of_def fs_le_def intro: walk_mono split: if_splits)

lemma path_exists_mono: "fs_le fs fs' \<Longrightarrow> path_exists fs p \<Longrightarrow> path_exists fs' p"
proof -
  assume le: "fs_le fs fs'" and ex: "path_exists fs p"
  from ex obtain k where k: "lookup fs p = Some k" "is_dir fs k \<or> k \<in> dom (files fs)"
    by (auto simp: path_exists_def split: option.splits)
  from lookup_mono [OF le k(1)] have "lookup fs' p = Some k" .
  moreover from k(2) le have "is_dir fs' k \<or> k \<in> dom (files fs')"
    by (auto simp: fs_le_def is_dir_def)
  ultimately show ?thesis by (simp add: path_exists_def)
qed

lemma mkdirs_le: "mkdirs fs c cs = Inr fs' \<Longrightarrow> fs_le fs fs'"
proof (induction fs c cs rule: mkdirs.induct)
  case (1 fs cur)
  then show ?case by (auto simp: fs_le_refl split: if_splits)
next
  case (2 fs cur c cs)
  show ?case
  proof (cases "c = [] \<or> c = ''.''")
    case True
    with 2 show ?thesis by (auto split: if_splits)
  next
    case False
    note nf = this
    show ?thesis
    proof (cases "c = ''..''")
      case True
      with 2 nf show ?thesis by (auto split: if_splits)
    next
      case False
      with 2 nf have "fs_le (fs\<lparr>dirs := insert (cur @ [c]) (dirs fs)\<rparr>) fs'"
        by (auto split: if_splits)
      moreover have "fs_le fs (fs\<lparr>dirs := insert (cur @ [c]) (dirs fs)\<rparr>)"
        by (auto simp: fs_le_def)
      ultimately show ?thesis by (rule fs_le_trans [rotated])
    qed
  qed
qed

lemma makedirs_le: "makedirs fs p = Inr fs' \<Longrightarrow> fs_le fs fs'"
  by (auto simp: makedirs_def dest: mkdirs_le split: if_splits sum.splits)

lemma open_target_lookup:
  assumes "open_target fs p = Inr k"
  shows "lookup (fs\<lparr>files := (files fs)(k \<mapsto> t)\<rparr>) p = Some k"
proof -
  let ?cs = "split_on CHR ''/'' p"
  let ?fs' = "fs\<lparr>files := (files fs)(k \<mapsto> t)\<rparr>"
  from assms have p: "p \<noteq> []" by (auto simp: open_target_def split: if_splits)
  from assms p obtain d where d: "walk fs (start_of fs p) (butlast ?cs) = Some d"
    by (auto simp: open_target_def split: if_splits option.splits)
  from assms p d have dd: "is_dir fs d" and l: "last ?cs \<noteq> []" "last ?cs \<noteq> ''.''" "last ?cs \<noteq> ''..''"
    and k: "k = d @ [last ?cs]"
    by (auto simp: open_target_def split: if_splits)
  have le: "fs_le fs ?fs'" by (auto simp: fs_le_def)
  have cs: "?cs = butlast ?cs @ [last ?cs]"
    using split_on_nonempty [of "CHR ''/''" p] by simp
  have "walk ?fs' (start_of fs p) (butlast ?cs @ [last ?cs]) = Some k"
    using walk_mono [OF le d] is_dir_mono [OF le dd] l k by (simp add: walk_append)
  with cs have "walk ?fs' (start_of fs p) ?cs = Some k" by simp
  moreover have "start_of ?fs' p = start_of fs p" by (simp add: start_of_def)
  ultimately show ?thesis using p by (simp add: lookup_def)
qed

lemma write_file_le: "write_file fs p t = Inr fs' \<Longrightarrow> fs_le fs fs'"
  by (auto simp: write_file_def fs_le_def split: sum.splits)

lemma append_file_le: "append_file fs p t = Inr fs' \<Longrightarrow> fs_le fs fs'"
  by (auto simp: append_file_def fs_le_def split: sum.splits)

lemma write_file_read: "write_file fs p t = Inr fs' \<Longrightarrow> read_file fs' p = Some t"
  by (auto simp: write_file_def read_file_def open_target_lookup split: sum.splits)

lemma append_file_read:
  "append_file fs p t = Inr fs' \<Longrightarrow> \<exists>prior. read_file fs' p = Some (prior @ t)"
  by (auto simp: append_file_def read_file_def open_target_lookup split: sum.splits)

lemma write_file_exists: "write_file fs p t = Inr fs' \<Longrightarrow> path_exists fs' p"
  by (auto simp: write_file_def path_exists_def open_target_lookup split: sum.splits)

lemma passed_append: "passed (a @ b) = passed a @ passed b"
  by (simp add: passed_def)

lemma emit_spec:
  assumes "\<And>fs'. r = Inr fs' \<Longrightarrow> fs_le (fsys s) fs'"
    and "emit pl oper r s = (x, s')"
  shows "fs_le (fsys s) (fsys s') \<and> trace s' = trace s @ [(pl, oper, x)]
         \<and> (x = None \<longrightarrow> r = Inr (fsys s')) \<and> (\<forall>e. x = Some e \<longrightarrow> r = Inl e)"
  using assms by (cases r) (auto simp: emit_def fs_le_refl)

lemma single_oper:
  assumes "fs_le (fsys s) (fsys s')" and "trace s' = trace s @ [(pl, oper, x)]"
    and "faithful w (pl, oper, x)"
    and "\<And>p. oper = Touch p \<Longrightarrow> x = None \<Longrightarrow> path_exists (fsys s') p"
  shows "stmt_post w pl [oper] s x s'"
proof (cases x)
  case None
  with assms show ?thesis by (auto simp: stmt_post_def passed_def)
next
  case (Some e)
  with assms show ?thesis by (auto simp: stmt_post_def passed_def)
qed

lemma stmt_spec_ensure_dir: "stmt_spec w pl [Makedirs path] (ensure_dir pl path)"
  unfolding stmt_spec_def
proof (intro allI impI)
  fix s x s'
  assume a: "ensure_dir pl path s = (x, s')"
  from emit_spec [OF _ a [unfolded ensure_dir_def]] makedirs_le
  have "fs_le (fsys s) (fsys s')" "trace s' = trace s @ [(pl, Makedirs path, x)]"
    by blast+
  then show "stmt_post w pl [Makedirs path] s x s'" by (rule single_oper) simp_all
qed

lemma stmt_spec_subprocess_run: "stmt_spec w pl [Run cmd] (subprocess_run w pl cmd)"
  unfolding stmt_spec_def
proof (intro allI impI)
  fix s x s'
  assume a: "subprocess_run w pl cmd s = (x, s')"
  have "fs_le (fsys s) (fsys s')" "trace s' = trace s @ [(pl, Run cmd, x)]" "x = tool w cmd"
    using a by (cases "tool w cmd"; auto simp: subprocess_run_def emit_def fs_le_refl)+
  then show "stmt_post w pl [Run cmd] s x s'" by (intro single_oper) simp_all
qed

lemma stmt_spec_read_hits: "stmt_spec w pl [Read_rows path] (read_hits w pl path)"
  unfolding stmt_spec_def
proof (intro allI impI)
  fix s x s'
  assume a: "read_hits w pl path s = (x, s')"
  have "fs_le (fsys s) (fsys s')" "trace s' = trace s @ [(pl, Read_rows path, x)]"
     "x = parse_result w path"
    using a
    by (cases "parse_rows w path"; auto simp: read_hits_def emit_def fs_le_refl parse_result_def)+
  then show "stmt_post w pl [Read_rows path] s x s'" by (intro single_oper) simp_all
qed

lemma stmt_spec_touch: "stmt_spec w pl [Touch path] (touch pl path)"
  unfolding stmt_spec_def
proof (intro allI impI)
  fix s x s'
  assume a: "touch pl path s = (x, s')"
  from emit_spec [OF _ a [unfolded touch_def]] write_file_le
  have e: "fs_le (fsys s) (fsys s')" "trace s' = trace s @ [(pl, Touch path, x)]"
    "x = None \<longrightarrow> write_file (fsys s) path [] = Inr (fsys s')"
    by blast+
  then have "x = None \<longrightarrow> path_exists (fsys s') path" by (auto dest: write_file_exists)
  with e show "stmt_post w pl [Touch path] s x s'" by (intro single_oper) simp_all
qed

lemma stmt_spec_seq:
  assumes a: "stmt_spec w pl ops1 a" and b: "stmt_spec w pl ops2 b"
  shows "stmt_spec w pl (ops1 @ ops2) (seq a b)"
  unfolding stmt_spec_def
proof (intro allI impI)
  fix s x s'
  assume r: "seq a b s = (x, s')"
  obtain x1 s1 where a1: "a s = (x1, s1)" by (cases "a s")
  from a [unfolded stmt_spec_def, rule_format, OF a1, unfolded stmt_post_def]
  obtain evs1 where le1: "fs_le (fsys s) (fsys s1)" and t1: "trace s1 = trace s @ evs1"
    and f1: "\<forall>ev\<in>set evs1. faithful w ev"
    and c1: "case x1 of
             None \<Rightarrow> evs1 = passed (map (Pair pl) ops1)
                      \<and> (\<forall>p. Touch p \<in> set ops1 \<longrightarrow> path_exists (fsys s1) p)
           | Some e \<Rightarrow> (\<exists>n<length ops1.
                         evs1 = passed (map (Pair pl) (take n ops1)) @ [(pl, ops1 ! n, Some e)])"
    by blast
  show "stmt_post w pl (ops1 @ ops2) s x s'"
  proof (cases x1)
    case (Some e)
    with r a1 have xs: "x = Some e" "s' = s1" by (auto simp: seq_def)
    from c1 Some obtain n where n: "n < length ops1"
      "evs1 = passed (map (Pair pl) (take n ops1)) @ [(pl, ops1 ! n, Some e)]" by auto
    then have "n < length (ops1 @ ops2)"
      "evs1 = passed (map (Pair pl) (take n (ops1 @ ops2))) @ [(pl, (ops1 @ ops2) ! n, Some e)]"
      by (auto simp: nth_append)
    with le1 t1 f1 xs show ?thesis unfolding stmt_post_def by auto
  next
    case None
    with r a1 have b1: "b s1 = (x, s')" by (auto simp: seq_def)
    from b [unfolded stmt_spec_def, rule_format, OF b1, unfolded stmt_post_def]
    obtain evs2 where le2: "fs_le (fsys s1) (fsys s')" and t2: "trace s' = trace s1 @ evs2"
      and f2: "\<forall>ev\<in>set evs2. faithful w ev"
      and c2: "case x of
             None \<Rightarrow> evs2 = passed (map (Pair pl) ops2)
                      \<and> (\<forall>p. Touch p \<in> set ops2 \<longrightarrow> path_exists (fsys s') p)
           | Some e \<Rightarrow> (\<exists>n<length ops2.
                         evs2 = passed (map (Pair pl) (take n ops2)) @ [(pl, ops2 ! n, Some e)])"
      by blast
    from c1 None have e1: "evs1 = passed (map (Pair pl) ops1)"
      and p1: "\<forall>p. Touch p \<in> set ops1 \<longrightarrow> path_exists (fsys s1) p" by auto
    have le: "fs_le (fsys s) (fsys s')" using le1 le2 by (rule fs_le_trans)
    have t: "trace s' = trace s @ (evs1 @ evs2)" using t1 t2 by simp
    have f: "\<forall>ev\<in>set (evs1 @ evs2). faithful w ev" using f1 f2 by auto
    have "case x of
             None \<Rightarrow> evs1 @ evs2 = passed (map (Pair pl) (ops1 @ ops2))
                      \<and> (\<forall>p. Touch p \<in> set (ops1 @ ops2) \<longrightarrow> path_exists (fsys s') p)
           | Some e \<Rightarrow> (\<exists>n<length (ops1 @ ops2).
                         evs1 @ evs2 = passed (map (Pair pl) (take n (ops1 @ ops2))) @ [(pl, (ops1 @ ops2) ! n, Some e)])"
    proof (cases x)
      case None
      with c2 e1 p1 le2 show ?thesis
        by (auto simp: passed_append intro: path_exists_mono)
    next
      case (Some e)
      with c2 obtain n where n: "n < length ops2"
        "evs2 = passed (map (Pair pl) (take n ops2)) @ [(pl, ops2 ! n, Some e)]" by auto
      have l: "length ops1 + n < length (ops1 @ ops2)" using n by simp
      have "evs1 @ evs2 = passed (map (Pair pl) (take (length ops1 + n) (ops1 @ ops2)))
          @ [(pl, (ops1 @ ops2) ! (length ops1 + n), Some e)]"
        using n e1 by (simp add: passed_append nth_append)
      with l have "\<exists>m<length (ops1 @ ops2).
          evs1 @ evs2 = passed (map (Pair pl) (take m (ops1 @ ops2))) @ [(pl, (ops1 @ ops2) ! m, Some e)]"
        by blast
      then show ?thesis using Some by simp
    qed
    with le t f show ?thesis unfolding stmt_post_def by blast
  qed
qed

lemma log_failure_spec:
  assumes "log_failure jd st e s = (r, s')"
  shows "fs_le (fsys s) (fsys s') \<and> trace s' = trace s @ [(Handler st, log_oper jd st e, r)]
       \<and> (r = None \<longrightarrow> (\<exists>prior. read_file (fsys s') (path_join jd ''error.log'')
                                   = Some (prior @ failure_text st e)))"
proof (cases "st = Taxonomic_Assignment")
  case True
  with assms have a: "emit (Handler st) (Write (path_join jd ''error.log'') (failure_text st e))
      (write_file (fsys s) (path_join jd ''error.log'') (failure_text st e)) s = (r, s')"
    by (simp add: log_failure_def write_text_def)
  from emit_spec [OF _ a] write_file_le
  have "fs_le (fsys s) (fsys s')"
    "trace s' = trace s @ [(Handler st, Write (path_join jd ''error.log'') (failure_text st e), r)]"
    "r = None \<longrightarrow> write_file (fsys s) (path_join jd ''error.log'') (failure_text st e) = Inr (fsys s')"
    by blast+
  moreover have "read_file (fsys s') (path_join jd ''error.log'') = Some ([] @ failure_text st e)"
    if "write_file (fsys s) (path_join jd ''error.log'') (failure_text st e) = Inr (fsys s')"
    using write_file_read [OF that] by simp
  ultimately show ?thesis using True by (auto simp: log_oper_def)
next
  case False
  with assms have a: "emit (Handler st) (Append (path_join jd ''error.log'') (failure_text st e))
      (append_file (fsys s) (path_join jd ''error.log'') (failure_text st e)) s = (r, s')"
    by (simp add: log_failure_def append_text_def)
  from emit_spec [OF _ a] append_file_le
  have "fs_le (fsys s) (fsys s')"
    "trace s' = trace s @ [(Handler st, Append (path_join jd ''error.log'') (failure_text st e), r)]"
    "r = None \<longrightarrow> append_file (fsys s) (path_join jd ''error.log'') (failure_text st e) = Inr (fsys s')"
    by blast+
  then show ?thesis using False by (auto simp: log_oper_def dest: append_file_read)
qed

lemma flow_spec_continue:
  assumes "fs_le (fsys s) (fsys s')" and "trace s' = trace s @ passed sc"
    and "\<forall>ev\<in>set (passed sc). faithful w ev"
    and "\<forall>pl p. (pl, Touch p) \<in> set sc \<longrightarrow> path_exists (fsys s') p"
  shows "flow_spec w jd sc s Continue s'"
  using assms unfolding flow_spec_def by simp

lemma flow_spec_return:
  assumes "fs_le (fsys s) (fsys s')" and "n < length sc" and "fst (sc ! n) = Body st"
    and "trace s' = trace s @ failed_run jd sc n st e None"
    and "\<forall>ev\<in>set (failed_run jd sc n st e None). faithful w ev"
    and "\<exists>prior. read_file (fsys s') (path_join jd ''error.log'') = Some (prior @ failure_text st e)"
  shows "flow_spec w jd sc s Return s'"
  using assms unfolding flow_spec_def by (simp; blast)

lemma flow_spec_raise:
  assumes "fs_le (fsys s) (fsys s')" and "n < length sc" and "fst (sc ! n) = Body st"
    and "trace s' = trace s @ failed_run jd sc n st e (Some e')"
    and "\<forall>ev\<in>set (failed_run jd sc n st e (Some e')). faithful w ev"
  shows "flow_spec w jd sc s (Raise e') s'"
  using assms unfolding flow_spec_def by (simp; blast)

lemma try_stage_flow:
  assumes b: "stmt_spec w (Body st) ops body"
  shows "stage_like w jd (map (Pair (Body st)) ops) (try_stage jd st body)"
  unfolding stage_like_def
proof (intro allI impI)
  fix s fl s'
  assume r: "try_stage jd st body s = (fl, s')"
  obtain x s1 where b1: "body s = (x, s1)" by (cases "body s")
  from b [unfolded stmt_spec_def, rule_format, OF b1, unfolded stmt_post_def]
  obtain evs where le1: "fs_le (fsys s) (fsys s1)" and t1: "trace s1 = trace s @ evs"
    and f1: "\<forall>ev\<in>set evs. faithful w ev"
    and c1: "case x of
             None \<Rightarrow> evs = passed (map (Pair (Body st)) ops)
                      \<and> (\<forall>p. Touch p \<in> set ops \<longrightarrow> path_exists (fsys s1) p)
           | Some e \<Rightarrow> (\<exists>n<length ops.
                         evs = passed (map (Pair (Body st)) (take n ops)) @ [(Body st, ops ! n, Some e)])"
    by blast
  show "flow_spec w jd (map (Pair (Body st)) ops) s fl s'"
  proof (cases x)
    case None
    with r b1 have "fl = Continue" "s' = s1" by (auto simp: try_stage_def)
    with None c1 le1 t1 f1 show ?thesis by (auto simp: flow_spec_def)
  next
    case (Some e)
    obtain r2 s2 where h: "log_failure jd st e s1 = (r2, s2)" by (cases "log_failure jd st e s1")
    from log_failure_spec [OF h]
    have le2: "fs_le (fsys s1) (fsys s2)"
      and t2: "trace s2 = trace s1 @ [(Handler st, log_oper jd st e, r2)]"
      and rd: "r2 = None \<longrightarrow> (\<exists>prior. read_file (fsys s2) (path_join jd ''error.log'')
                                   = Some (prior @ failure_text st e))"
      by blast+
    from c1 Some obtain n where n: "n < length ops"
      "evs = passed (map (Pair (Body st)) (take n ops)) @ [(Body st, ops ! n, Some e)]" by auto
    let ?sc = "map (Pair (Body st)) ops"
    have n': "n < length ?sc" "fst (?sc ! n) = Body st" using n by simp_all
    have ev: "evs @ [(Handler st, log_oper jd st e, r2)] = failed_run jd ?sc n st e r2"
      using n by (simp add: failed_run_def take_map)
    have s': "s' = s2" and fl: "fl = (case r2 of None \<Rightarrow> Return | Some e' \<Rightarrow> Raise e')"
      using r b1 Some h by (auto simp: try_stage_def split: option.splits)
    have le: "fs_le (fsys s) (fsys s')" using le1 le2 s' by (auto intro: fs_le_trans)
    have t: "trace s' = trace s @ failed_run jd ?sc n st e r2"
      using t1 t2 s' ev by simp
    have f: "\<forall>ev\<in>set (failed_run jd ?sc n st e r2). faithful w ev"
      using f1 ev [symmetric] by (auto simp: log_oper_def)
    show ?thesis
    proof (cases r2)
      case None
      with fl have "fl = Return" by simp
      moreover have "flow_spec w jd ?sc s Return s'"
        using le n' t f rd None s' by (intro flow_spec_return [where n = n and st = st and e = e]) simp_all
      ultimately show ?thesis by simp
    next
      case (Some e')
      with fl have "fl = Raise e'" by simp
      moreover have "flow_spec w jd ?sc s (Raise e') s'"
        using le n' t f Some by (intro flow_spec_raise [where n = n and st = st and e = e]) simp_all
      ultimately show ?thesis by simp
    qed
  qed
qed

lemma failed_run_left:
  "n < length sc1 \<Longrightarrow> failed_run jd (sc1 @ sc2) n st e r = failed_run jd sc1 n st e r"
  by (simp add: failed_run_def nth_append)

lemma failed_run_right:
  "failed_run jd (sc1 @ sc2) (length sc1 + n) st e r = passed sc1 @ failed_run jd sc2 n st e r"
  by (simp add: failed_run_def nth_append passed_append)

lemma and_then_flow:
  assumes f: "stage_like w jd sc1 f" and g: "stage_like w jd sc2 g"
  shows "stage_like w jd (sc1 @ sc2) (and_then f g)"
  unfolding stage_like_def
proof (intro allI impI)
  fix s fl s'
  assume r: "and_then f g s = (fl, s')"
  obtain fl1 s1 where f1: "f s = (fl1, s1)" by (cases "f s")
  from f [unfolded stage_like_def, rule_format, OF f1]
  have fs1: "flow_spec w jd sc1 s fl1 s1" .
  show "flow_spec w jd (sc1 @ sc2) s fl s'"
  proof (cases fl1)
    case Continue
    with r f1 have g1: "g s1 = (fl, s')" by (simp add: and_then_def)
    from g [unfolded stage_like_def, rule_format, OF g1]
    have fs2: "flow_spec w jd sc2 s1 fl s'" .
    from fs1 Continue have le1: "fs_le (fsys s) (fsys s1)"
      and t1: "trace s1 = trace s @ passed sc1"
      and fa1: "\<forall>ev\<in>set (passed sc1). faithful w ev"
      and p1: "\<forall>pl p. (pl, Touch p) \<in> set sc1 \<longrightarrow> path_exists (fsys s1) p"
      by (auto simp: flow_spec_def)
    from fs2 obtain evs where le2: "fs_le (fsys s1) (fsys s')"
      and t2: "trace s' = trace s1 @ evs" and fa2: "\<forall>ev\<in>set evs. faithful w ev"
      and c2: "case fl of
            Continue \<Rightarrow> evs = passed sc2
                        \<and> (\<forall>pl p. (pl, Touch p) \<in> set sc2 \<longrightarrow> path_exists (fsys s') p)
          | Return \<Rightarrow>
              (\<exists>n st e. n < length sc2 \<and> fst (sc2 ! n) = Body st
                 \<and> evs = failed_run jd sc2 n st e None
                 \<and> (\<exists>prior. read_file (fsys s') (path_join jd ''error.log'')
                               = Some (prior @ failure_text st e)))
          | Raise e' \<Rightarrow>
              (\<exists>n st e. n < length sc2 \<and> fst (sc2 ! n) = Body st
                 \<and> evs = failed_run jd sc2 n st e (Some e'))"
      unfolding flow_spec_def by blast
    have le: "fs_le (fsys s) (fsys s')" using le1 le2 by (rule fs_le_trans)
    have t: "trace s' = trace s @ (passed sc1 @ evs)" using t1 t2 by simp
    have fa: "\<forall>ev\<in>set (passed sc1 @ evs). faithful w ev" using fa1 fa2 by auto
    have "case fl of
            Continue \<Rightarrow> passed sc1 @ evs = passed (sc1 @ sc2)
                        \<and> (\<forall>pl p. (pl, Touch p) \<in> set (sc1 @ sc2) \<longrightarrow> path_exists (fsys s') p)
          | Return \<Rightarrow>
              (\<exists>n st e. n < length (sc1 @ sc2) \<and> fst ((sc1 @ sc2) ! n) = Body st
                 \<and> passed sc1 @ evs = failed_run jd (sc1 @ sc2) n st e None
                 \<and> (\<exists>prior. read_file (fsys s') (path_join jd ''error.log'')
                               = Some (prior @ failure_text st e)))
          | Raise e' \<Rightarrow>
              (\<exists>n st e. n < length (sc1 @ sc2) \<and> fst ((sc1 @ sc2) ! n) = Body st
                 \<and> passed sc1 @ evs = failed_run jd (sc1 @ sc2) n st e (Some e'))"
    proof (cases fl)
      case Continue
      with c2 p1 le2 show ?thesis by (auto simp: passed_append intro: path_exists_mono)
    next
      case Return
      with c2 obtain n st e where n: "n < length sc2" "fst (sc2 ! n) = Body st"
        "evs = failed_run jd sc2 n st e None"
        "\<exists>prior. read_file (fsys s') (path_join jd ''error.log'') = Some (prior @ failure_text st e)"
        by auto
      have "length sc1 + n < length (sc1 @ sc2)" "fst ((sc1 @ sc2) ! (length sc1 + n)) = Body st"
        "passed sc1 @ evs = failed_run jd (sc1 @ sc2) (length sc1 + n) st e None"
        using n by (simp_all add: failed_run_right nth_append)
      with n(4) have "\<exists>m st e. m < length (sc1 @ sc2) \<and> fst ((sc1 @ sc2) ! m) = Body st
                 \<and> passed sc1 @ evs = failed_run jd (sc1 @ sc2) m st e None
                 \<and> (\<exists>prior. read_file (fsys s') (path_join jd ''error.log'')
                               = Some (prior @ failure_text st e))" by blast
      with Return show ?thesis by simp
    next
      case (Raise e')
      with c2 obtain n st e where n: "n < length sc2" "fst (sc2 ! n) = Body st"
        "evs = failed_run jd sc2 n st e (Some e')"
        by auto
      have "length sc1 + n < length (sc1 @ sc2)" "fst ((sc1 @ sc2) ! (length sc1 + n)) = Body st"
        "passed sc1 @ evs = failed_run jd (sc1 @ sc2) (length sc1 + n) st e (Some e')"
        using n by (simp_all add: failed_run_right nth_append)
      then have "\<exists>m st e. m < length (sc1 @ sc2) \<and> fst ((sc1 @ sc2) ! m) = Body st
                 \<and> passed sc1 @ evs = failed_run jd (sc1 @ sc2) m st e (Some e')" by blast
      with Raise show ?thesis by simp
    qed
    with le t fa show ?thesis unfolding flow_spec_def by blast
  next
    case Return
    with r f1 have e: "fl = Return" "s' = s1" by (simp_all add: and_then_def)
    from fs1 Return obtain n st x where le1: "fs_le (fsys s) (fsys s1)"
      and n: "n < length sc1" "fst (sc1 ! n) = Body st"
      and t1: "trace s1 = trace s @ failed_run jd sc1 n st x None"
      and fa1: "\<forall>ev\<in>set (failed_run jd sc1 n st x None). faithful w ev"
      and rd: "\<exists>prior. read_file (fsys s1) (path_join jd ''error.log'') = Some (prior @ failure_text st x)"
      by (auto simp: flow_spec_def)
    have "n < length (sc1 @ sc2)" "fst ((sc1 @ sc2) ! n) = Body st"
      "failed_run jd (sc1 @ sc2) n st x None = failed_run jd sc1 n st x None"
      using n by (simp_all add: failed_run_left nth_append)
    with le1 t1 fa1 rd e show ?thesis
      by (simp, intro flow_spec_return [where n = n and st = st and e = x]) simp_all
  next
    case (Raise e')
    with r f1 have e: "fl = Raise e'" "s' = s1" by (simp_all add: and_then_def)
    from fs1 Raise obtain n st x where le1: "fs_le (fsys s) (fsys s1)"
      and n: "n < length sc1" "fst (sc1 ! n) = Body st"
      and t1: "trace s1 = trace s @ failed_run jd sc1 n st x (Some e')"
      and fa1: "\<forall>ev\<in>set (failed_run jd sc1 n st x (Some e')). faithful w ev"
      by (auto simp: flow_spec_def)
    have "n < length (sc1 @ sc2)" "fst ((sc1 @ sc2) ! n) = Body st"
      "failed_run jd (sc1 @ sc2) n st x (Some e') = failed_run jd sc1 n st x (Some e')"
      using n by (simp_all add: failed_run_left nth_append)
    with le1 t1 fa1 e show ?thesis
      by (simp, intro flow_spec_raise [where n = n and st = st and e = x]) simp_all
  qed
qed

lemma tool_stage_flow:
  "stage_like w jd (map (Pair (Body st)) [Makedirs d, Run c, Touch m])
     (try_stage jd st (seq (ensure_dir (Body st) d)
                      (seq (subprocess_run w (Body st) c) (touch (Body st) m))))"
  using try_stage_flow [OF stmt_spec_seq [OF stmt_spec_ensure_dir
          stmt_spec_seq [OF stmt_spec_subprocess_run stmt_spec_touch]]]
  by simp

lemma taxonomic_assignment_flow:
  "stage_like w jd (script_tax jd) (taxonomic_assignment w jd)"
  unfolding script_tax_def taxonomic_assignment_def by (rule tool_stage_flow)

lemma dendrogram_heatmap_flow:
  "stage_like w jd
     (map (Pair (Body Dendrogram_Heatmap))
       [Makedirs (path_join jd ''5.DendroPlot''),
        Run (cmd5 (path_join jd ''4.cgProfiles'') (path_join jd ''5.DendroPlot'')),
        Run (cmd_heatmap jd),
        Touch (path_join jd ''DendroPlot_ok'')])
     (dendrogram_heatmap w jd)"
  unfolding dendrogram_heatmap_def
  using try_stage_flow [OF stmt_spec_seq [OF stmt_spec_ensure_dir
          stmt_spec_seq [OF stmt_spec_subprocess_run
            stmt_spec_seq [OF stmt_spec_subprocess_run stmt_spec_touch]]]]
  by simp

lemma branch_A_flow: "stage_like w jd (script_A jd organism) (branch_A w jd organism)"
  unfolding script_A_def branch_A_def query_profiling_def ab_comparison_alleticDist_def
    cgmlst_profiler_def
  by (intro and_then_flow tool_stage_flow dendrogram_heatmap_flow)

lemma parsing_hits_summary_flow:
  "stage_like w jd
     (map (Pair (Body Parsing_hits_summary))
        [Read_rows (path_join (path_join jd ''3.abProfilesCmp'') ''hits_summary.tsv'')])
     (parsing_hits_summary w jd)"
  unfolding parsing_hits_summary_def by (rule try_stage_flow [OF stmt_spec_read_hits])

lemma branch_B_flow: "stage_like w jd (script_B jd) (branch_B w jd)"
  unfolding script_B_def branch_B_def simple_ab_comparison_def
  by (intro and_then_flow tool_stage_flow parsing_hits_summary_flow)

lemma stages_flow:
  "stage_like w jd (script w jd) (and_then (taxonomic_assignment w jd) (branches w jd))"
proof -
  have "stage_like w jd
          (case resolve_organism w jd of
             None \<Rightarrow> script_B jd
           | Some organism \<Rightarrow>
               if organism \<in> set known_organisms then script_A jd organism else script_B jd)
          (branches w jd)"
    unfolding branches_def by (auto split: option.splits intro: branch_A_flow branch_B_flow)
  then show ?thesis unfolding script_def
    by (intro and_then_flow taxonomic_assignment_flow)
qed

lemma finalize_spec:
  "stmt_spec w Final [Touch (path_join jd ''complete_ok''), Touch (path_join jd ''country'')]
     (finalize jd)"
  unfolding finalize_def using stmt_spec_seq [OF stmt_spec_touch stmt_spec_touch] by simp

text \<open>The three ways a run ends.\<close>

lemma run_pipeline_cases:
  assumes run: "run_pipeline w job_dir fs = (out, s')"
  obtains
    (completed) "out = None"
      "trace s' = passed (script w (abspath fs job_dir)) @ passed (script_final (abspath fs job_dir))"
      "\<forall>pl p. (pl, Touch p) \<in> set (script w (abspath fs job_dir) @ script_final (abspath fs job_dir))
          \<longrightarrow> path_exists (fsys s') p"
  | (final_raised) e n where "out = Some e" "n < 2"
      "trace s' = passed (script w (abspath fs job_dir))
         @ passed (take n (script_final (abspath fs job_dir)))
         @ [(Final, snd (script_final (abspath fs job_dir) ! n), Some e)]"
      "\<forall>pl p. (pl, Touch p) \<in> set (script w (abspath fs job_dir)) \<longrightarrow> path_exists (fsys s') p"
  | (stage_failed) n st e where "n < length (script w (abspath fs job_dir))"
      "fst (script w (abspath fs job_dir) ! n) = Body st"
      "trace s' = failed_run (abspath fs job_dir) (script w (abspath fs job_dir)) n st e out"
      "out = None \<longrightarrow> (\<exists>prior. read_file (fsys s') (path_join (abspath fs job_dir) ''error.log'')
                                  = Some (prior @ failure_text st e))"
proof -
  let ?jd = "abspath fs job_dir"
  let ?s0 = "\<lparr>fsys = fs, trace = []\<rparr>"
  obtain fl s1 where st: "and_then (taxonomic_assignment w ?jd) (branches w ?jd) ?s0 = (fl, s1)"
    by (cases "and_then (taxonomic_assignment w ?jd) (branches w ?jd) ?s0")
  from stages_flow [unfolded stage_like_def, rule_format, OF st]
  have fs1: "flow_spec w ?jd (script w ?jd) ?s0 fl s1" .
  show thesis
  proof (cases fl)
    case Continue
    with run st have fin: "finalize ?jd s1 = (out, s')" by (simp add: run_pipeline_def Let_def)
    from fs1 Continue have t1: "trace s1 = passed (script w ?jd)"
      and p1: "\<forall>pl p. (pl, Touch p) \<in> set (script w ?jd) \<longrightarrow> path_exists (fsys s1) p"
      by (auto simp: flow_spec_def)
    from finalize_spec [unfolded stmt_spec_def, rule_format, OF fin, unfolded stmt_post_def]
    obtain evs where le2: "fs_le (fsys s1) (fsys s')" and t2: "trace s' = trace s1 @ evs"
      and c2: "case out of
            None \<Rightarrow> evs = passed (map (Pair Final) [Touch (path_join ?jd ''complete_ok''), Touch (path_join ?jd ''country'')])
                     \<and> (\<forall>p. Touch p \<in> set [Touch (path_join ?jd ''complete_ok''), Touch (path_join ?jd ''country'')] \<longrightarrow> path_exists (fsys s') p)
          | Some e \<Rightarrow> (\<exists>n<length [Touch (path_join ?jd ''complete_ok''), Touch (path_join ?jd ''country'')].
                        evs = passed (map (Pair Final) (take n [Touch (path_join ?jd ''complete_ok''), Touch (path_join ?jd ''country'')])) @ [(Final, [Touch (path_join ?jd ''complete_ok''), Touch (path_join ?jd ''country'')] ! n, Some e)])"
      by blast
    show ?thesis
    proof (cases out)
      case None
      with c2 have "evs = passed (script_final ?jd)"
        and "\<forall>pl p. (pl, Touch p) \<in> set (script_final ?jd) \<longrightarrow> path_exists (fsys s') p"
        by (auto simp: script_final_def)
      with p1 le2 t1 t2 None show ?thesis
        by (intro completed) (auto intro: path_exists_mono)
    next
      case (Some e)
      with c2 have "\<exists>n<2. evs = passed (map (Pair Final) (take n [Touch (path_join ?jd ''complete_ok''), Touch (path_join ?jd ''country'')])) @ [(Final, [Touch (path_join ?jd ''complete_ok''), Touch (path_join ?jd ''country'')] ! n, Some e)]"
        by (simp add: numeral_2_eq_2)
      then obtain n where n: "n < 2"
        "evs = passed (map (Pair Final) (take n [Touch (path_join ?jd ''complete_ok''), Touch (path_join ?jd ''country'')])) @ [(Final, [Touch (path_join ?jd ''complete_ok''), Touch (path_join ?jd ''country'')] ! n, Some e)]"
        by blast
      then have "evs = passed (take n (script_final ?jd)) @ [(Final, snd (script_final ?jd ! n), Some e)]"
        using less_2_cases [OF n(1)] by (auto simp: script_final_def)
      moreover have "\<forall>pl p. (pl, Touch p) \<in> set (script w ?jd) \<longrightarrow> path_exists (fsys s') p"
        using p1 le2 by (auto intro: path_exists_mono)
      ultimately show ?thesis using t1 t2 Some n(1) by (intro final_raised [of e n]) simp_all
    qed
  next
    case Return
    with run st have o: "out = None" "s' = s1" by (simp_all add: run_pipeline_def Let_def)
    from fs1 Return o show ?thesis
      by (auto simp: flow_spec_def intro: stage_failed)
  next
    case (Raise e')
    with run st have o: "out = Some e'" "s' = s1" by (simp_all add: run_pipeline_def Let_def)
    from fs1 Raise o show ?thesis
      by (auto simp: flow_spec_def intro: stage_failed)
  qed
qed

lemma run_pipeline_faithful:
  assumes run: "run_pipeline w job_dir fs = (out, s')" and ev: "ev \<in> set (trace s')"
  shows "faithful w ev"
proof -
  let ?jd = "abspath fs job_dir"
  let ?s0 = "\<lparr>fsys = fs, trace = []\<rparr>"
  obtain fl s1 where st: "and_then (taxonomic_assignment w ?jd) (branches w ?jd) ?s0 = (fl, s1)"
    by (cases "and_then (taxonomic_assignment w ?jd) (branches w ?jd) ?s0")
  from stages_flow [unfolded stage_like_def, rule_format, OF st]
  have f1: "\<forall>ev\<in>set (trace s1). faithful w ev" by (auto simp: flow_spec_def)
  show ?thesis
  proof (cases fl)
    case Continue
    with run st have fin: "finalize ?jd s1 = (out, s')" by (simp add: run_pipeline_def Let_def)
    from finalize_spec [unfolded stmt_spec_def, rule_format, OF fin, unfolded stmt_post_def]
    obtain evs where "trace s' = trace s1 @ evs" "\<forall>ev\<in>set evs. faithful w ev" by blast
    with f1 ev show ?thesis by auto
  next
    case Return
    with run st have "s' = s1" by (simp_all add: run_pipeline_def Let_def)
    with f1 ev show ?thesis by simp
  next
    case (Raise e')
    with run st have "s' = s1" by (simp_all add: run_pipeline_def Let_def)
    with f1 ev show ?thesis by simp
  qed
qed

lemma passed_result: "ev \<in> set (passed sc) \<Longrightarrow> snd (snd ev) = None"
  by (auto simp: passed_def)

lemma passed_place: "ev \<in> set (passed sc) \<Longrightarrow> (fst ev, fst (snd ev)) \<in> set sc"
  by (auto simp: passed_def)

lemma script_places: "po \<in> set (script w jd) \<Longrightarrow> \<exists>st. fst po = Body st"
  by (auto simp: script_def script_tax_def script_A_def script_B_def split: option.splits if_splits)

lemma script_final_places: "po \<in> set (script_final jd) \<Longrightarrow> fst po = Final"
  by (auto simp: script_final_def)

lemma created_append: "created (a @ b) = created a @ created b"
  by (simp add: created_def)

lemma created_failed_run:
  "created (failed_run jd sc n st e r) = created (passed (take n sc))"
  by (cases r) (auto simp: failed_run_def created_def log_oper_def)

lemma scan_rows_total: "\<exists>c. scan_rows rows country = Inr c"
proof (induction rows arbitrary: country)
  case Nil
  show ?case by simp
next
  case (Cons row rows)
  show ?case
  proof (cases "length row < 7")
    case True
    with Cons show ?thesis by simp
  next
    case False
    then obtain x xs where "row = x # xs" by (cases row) auto
    with False Cons show ?thesis by simp
  qed
qed

lemma path_join_inject:
  assumes "b \<noteq> []" "hd b \<noteq> CHR ''/''" "c \<noteq> []" "hd c \<noteq> CHR ''/''"
  shows "(path_join a b = path_join a c) = (b = c)"
  using assms by (auto simp: path_join_def)

text \<open>
  C7, amended. When an operation in the body of a stage's \<open>try\<close> raises \<open>e\<close> (a tool that
  exits with a non-zero status, or an I/O error of \<open>makedirs\<close>, of the marker or of the
  hits table), the handler of that same stage opens \<open>error.log\<close> (with \<open>"w"\<close> in stage 1
  and \<open>"a"\<close> in the others) to write the text naming the stage and \<open>str(e)\<close>; nothing is
  done after it (no later stage, no second attempt, no finalization), and every
  operation before the failing one had succeeded. The result of \<open>run_pipeline\<close> is the
  result of that write: when \<open>error.log\<close> can be written, the text is at its end and
  \<open>run_pipeline\<close> returns; when opening \<open>error.log\<close> raises, that exception leaves
  \<open>run_pipeline\<close>.
\<close>

theorem run_pipeline_stage_failure_logged:
  assumes run: "run_pipeline w job_dir fs = (out, s')"
    and fail: "(Body st, oper, Some e) \<in> set (trace s')"
  shows "(\<exists>pre. trace s' = pre @ [(Body st, oper, Some e),
                                  (Handler st, log_oper (abspath fs job_dir) st e, out)]
                \<and> (\<forall>ev\<in>set pre. snd (snd ev) = None))
       \<and> (out = None \<longrightarrow>
            (\<exists>prior. read_file (fsys s') (path_join (abspath fs job_dir) ''error.log'')
                       = Some (prior @ failure_text st e)))
       \<and> (\<forall>cmd. oper = Run cmd \<longrightarrow> tool w cmd = Some e)"
  using run
proof (cases rule: run_pipeline_cases)
  case completed
  from fail completed(2) have "snd (snd (Body st, oper, Some e)) = None"
    by (auto dest: passed_result)
  then show ?thesis by simp
next
  case (final_raised x n)
  from fail final_raised(3) have "snd (snd (Body st, oper, Some e)) = None"
    by (auto dest: passed_result)
  then show ?thesis by simp
next
  case (stage_failed n st' e')
  let ?jd = "abspath fs job_dir"
  let ?sc = "script w ?jd"
  from fail stage_failed(3)
  have "(Body st, oper, Some e) \<in> set (passed (take n ?sc))
        \<or> (Body st, oper, Some e) = (Body st', snd (?sc ! n), Some e')"
    by (auto simp: failed_run_def)
  then have eq: "st' = st" "snd (?sc ! n) = oper" "e' = e"
    by (auto dest: passed_result)
  with stage_failed(3)
  have t: "trace s' = passed (take n ?sc) @ [(Body st, oper, Some e), (Handler st, log_oper ?jd st e, out)]"
    by (simp add: failed_run_def)
  have pre: "\<forall>ev\<in>set (passed (take n ?sc)). snd (snd ev) = None"
    by (auto dest: passed_result)
  from run_pipeline_faithful [OF run fail] have "\<forall>cmd. oper = Run cmd \<longrightarrow> tool w cmd = Some e"
    by auto
  with t pre stage_failed(4) eq show ?thesis by blast
qed

lemma run_pipeline_opers:
  assumes run: "run_pipeline w job_dir fs = (out, s')"
    and ev: "(pl, oper, r) \<in> set (trace s')"
  shows "(pl, oper) \<in> set (script w (abspath fs job_dir) @ script_final (abspath fs job_dir))
       \<or> (\<exists>st e. pl = Handler st \<and> oper = log_oper (abspath fs job_dir) st e)"
  using run
proof (cases rule: run_pipeline_cases)
  case completed
  with ev show ?thesis by (auto dest: passed_place)
next
  case (final_raised x n)
  let ?fin = "script_final (abspath fs job_dir)"
  have "?fin ! n \<in> set ?fin"
    using less_2_cases [OF final_raised(2)] by (auto simp: script_final_def)
  moreover have "fst (?fin ! n) = Final"
    using less_2_cases [OF final_raised(2)] by (auto simp: script_final_def)
  ultimately have "(Final, snd (?fin ! n)) \<in> set ?fin" by (metis prod.collapse)
  with ev final_raised(3) show ?thesis
    by (auto dest!: passed_place in_set_takeD)
next
  case (stage_failed n st e)
  let ?sc = "script w (abspath fs job_dir)"
  have "?sc ! n \<in> set ?sc" using stage_failed(1) by simp
  with stage_failed(2) have "(Body st, snd (?sc ! n)) \<in> set ?sc" by (metis prod.collapse)
  with ev stage_failed(3) show ?thesis
    by (auto simp: failed_run_def dest!: passed_place in_set_takeD)
qed

text \<open>
  C4. When the organism resolves to one of the five abbreviations and the run succeeds
  (it returns and has created \<open>complete_ok\<close>), the files it created are, in this order,
  \<open>taxAssign_ok\<close>, \<open>queryProfile_ok\<close>, \<open>abProfilesCmp_ok\<close>, \<open>cgProfiles_ok\<close>,
  \<open>DendroPlot_ok\<close>, \<open>complete_ok\<close> and \<open>country\<close>, and the four markers of branch A are
  present in the job directory at the end.
\<close>

theorem branch_A_markers_in_order:
  assumes run: "run_pipeline w job_dir fs = (None, s')"
    and ok: "(Final, Touch (path_join (abspath fs job_dir) ''complete_ok''), None) \<in> set (trace s')"
    and org: "resolve_organism w (abspath fs job_dir) = Some organism"
      "organism \<in> set known_organisms"
  shows "created (trace s') =
           map (path_join (abspath fs job_dir))
             [''taxAssign_ok'', ''queryProfile_ok'', ''abProfilesCmp_ok'', ''cgProfiles_ok'',
              ''DendroPlot_ok'', ''complete_ok'', ''country'']
       \<and> (\<forall>m\<in>set [''queryProfile_ok'', ''abProfilesCmp_ok'', ''cgProfiles_ok'', ''DendroPlot_ok''].
             path_exists (fsys s') (path_join (abspath fs job_dir) m))"
  using run
proof (cases rule: run_pipeline_cases)
  case completed
  let ?jd = "abspath fs job_dir"
  have sc: "script w ?jd = script_tax ?jd @ script_A ?jd organism"
    using org by (simp add: script_def)
  have "created (trace s') =
           map (path_join ?jd)
             [''taxAssign_ok'', ''queryProfile_ok'', ''abProfilesCmp_ok'', ''cgProfiles_ok'',
              ''DendroPlot_ok'', ''complete_ok'', ''country'']"
    unfolding completed(2) sc
    by (simp add: script_tax_def script_A_def script_final_def passed_def created_def)
  moreover have "\<forall>m\<in>set [''queryProfile_ok'', ''abProfilesCmp_ok'', ''cgProfiles_ok'', ''DendroPlot_ok''].
             path_exists (fsys s') (path_join ?jd m)"
    using completed(3) unfolding sc by (simp add: script_A_def)
  ultimately show ?thesis by blast
next
  case (final_raised x n)
  then show ?thesis by simp
next
  case (stage_failed n st e)
  from ok stage_failed(3) have "(Final, Touch (path_join (abspath fs job_dir) ''complete_ok''))
      \<in> set (script w (abspath fs job_dir))"
    by (auto simp: failed_run_def dest!: passed_place in_set_takeD)
  from script_places [OF this] show ?thesis by simp
qed

lemma created_passed_take:
  "created (passed (take n sc)) @ created (passed (drop n sc)) = created (passed sc)"
  using created_append [of "passed (take n sc)" "passed (drop n sc)"]
  by (simp add: passed_append [symmetric])

lemma created_raised: "created [(pl, oper, Some x)] = []"
  by (simp add: created_def)

lemma script_B_run:
  assumes "resolve_organism w jd \<notin> Some ` set known_organisms"
  shows "script w jd = script_tax jd @ script_B jd"
  using assms by (auto simp: script_def split: option.splits)

lemma log_oper_neq [simp]:
  "log_oper jd st e \<noteq> Touch p" "Touch p \<noteq> log_oper jd st e"
  "log_oper jd st e \<noteq> Run c" "Run c \<noteq> log_oper jd st e"
  by (auto simp: log_oper_def)

text \<open>
  C5. When the organism does not resolve to one of the five abbreviations, the run never
  opens \<open>queryProfile_ok\<close>, \<open>cgProfiles_ok\<close> or \<open>DendroPlot_ok\<close>; the files it creates are
  a first part of \<open>taxAssign_ok\<close> (stage 1, before the branch), \<open>abProfilesCmp_ok\<close>,
  \<open>complete_ok\<close>, \<open>country\<close>; the only tools it runs are the classifier and the simple
  comparison of branch B; and when it gets as far as creating \<open>complete_ok\<close>, the marker
  \<open>abProfilesCmp_ok\<close> has been created and is present.
\<close>

theorem branch_B_only_abProfilesCmp:
  assumes run: "run_pipeline w job_dir fs = (out, s')"
    and org: "resolve_organism w (abspath fs job_dir) \<notin> Some ` set known_organisms"
  shows "(\<forall>pl r m. m \<in> set [''queryProfile_ok'', ''cgProfiles_ok'', ''DendroPlot_ok'']
            \<longrightarrow> (pl, Touch (path_join (abspath fs job_dir) m), r) \<notin> set (trace s'))
       \<and> (\<exists>rest. created (trace s') @ rest =
              map (path_join (abspath fs job_dir))
                [''taxAssign_ok'', ''abProfilesCmp_ok'', ''complete_ok'', ''country''])
       \<and> (\<forall>pl cmd r. (pl, Run cmd, r) \<in> set (trace s') \<longrightarrow>
              cmd = cmd1 (path_join (abspath fs job_dir) ''contigFile.fa'')
                      (path_join (abspath fs job_dir) ''1.taxAssign'')
            \<or> cmd = cmd3_simple (path_join (abspath fs job_dir) ''contigFile.fa'')
                      (path_join (abspath fs job_dir) ''3.abProfilesCmp''))
       \<and> ((Final, Touch (path_join (abspath fs job_dir) ''complete_ok''), None) \<in> set (trace s')
            \<longrightarrow> path_join (abspath fs job_dir) ''abProfilesCmp_ok'' \<in> set (created (trace s'))
              \<and> path_exists (fsys s') (path_join (abspath fs job_dir) ''abProfilesCmp_ok''))"
proof -
  let ?jd = "abspath fs job_dir"
  note sc = script_B_run [OF org]
  have opers: "(pl, oper) \<in> set (script_tax ?jd @ script_B ?jd @ script_final ?jd)
       \<or> (\<exists>st e. pl = Handler st \<and> oper = log_oper ?jd st e)"
    if "(pl, oper, r) \<in> set (trace s')" for pl oper r
    using run_pipeline_opers [OF run that] by (simp add: sc)
  have a: "\<forall>pl r m. m \<in> set [''queryProfile_ok'', ''cgProfiles_ok'', ''DendroPlot_ok'']
            \<longrightarrow> (pl, Touch (path_join ?jd m), r) \<notin> set (trace s')"
  proof (intro allI impI notI)
    fix pl r m
    assume m: "m \<in> set [''queryProfile_ok'', ''cgProfiles_ok'', ''DendroPlot_ok'']"
      and "(pl, Touch (path_join ?jd m), r) \<in> set (trace s')"
    from opers [OF this(2)] m show False
      by (auto simp: script_tax_def script_B_def script_final_def path_join_inject)
  qed
  have d: "\<forall>pl cmd r. (pl, Run cmd, r) \<in> set (trace s') \<longrightarrow>
              cmd = cmd1 (path_join ?jd ''contigFile.fa'') (path_join ?jd ''1.taxAssign'')
            \<or> cmd = cmd3_simple (path_join ?jd ''contigFile.fa'') (path_join ?jd ''3.abProfilesCmp'')"
  proof (intro allI impI)
    fix pl cmd r
    assume "(pl, Run cmd, r) \<in> set (trace s')"
    from opers [OF this]
    show "cmd = cmd1 (path_join ?jd ''contigFile.fa'') (path_join ?jd ''1.taxAssign'')
            \<or> cmd = cmd3_simple (path_join ?jd ''contigFile.fa'') (path_join ?jd ''3.abProfilesCmp'')"
      by (auto simp: script_tax_def script_B_def script_final_def)
  qed
  have cr: "created (passed (script_tax ?jd @ script_B ?jd))
              = map (path_join ?jd) [''taxAssign_ok'', ''abProfilesCmp_ok'']"
    by (simp add: script_tax_def script_B_def passed_def created_def)
  have crf: "created (passed (script_final ?jd)) = map (path_join ?jd) [''complete_ok'', ''country'']"
    by (simp add: script_final_def passed_def created_def)
  from run have bc: "(\<exists>rest. created (trace s') @ rest =
              map (path_join ?jd) [''taxAssign_ok'', ''abProfilesCmp_ok'', ''complete_ok'', ''country''])
       \<and> ((Final, Touch (path_join ?jd ''complete_ok''), None) \<in> set (trace s')
            \<longrightarrow> path_join ?jd ''abProfilesCmp_ok'' \<in> set (created (trace s'))
              \<and> path_exists (fsys s') (path_join ?jd ''abProfilesCmp_ok''))"
  proof (cases rule: run_pipeline_cases)
    case completed
    from completed(2) have "created (trace s') =
        map (path_join ?jd) [''taxAssign_ok'', ''abProfilesCmp_ok'', ''complete_ok'', ''country'']"
      by (simp add: sc created_append cr crf)
    moreover from completed(3) have "path_exists (fsys s') (path_join ?jd ''abProfilesCmp_ok'')"
      by (simp add: sc script_B_def)
    ultimately show ?thesis by simp
  next
    case (final_raised x n)
    let ?fin = "script_final ?jd"
    from final_raised(3) have c: "created (trace s') =
        map (path_join ?jd) [''taxAssign_ok'', ''abProfilesCmp_ok''] @ created (passed (take n ?fin))"
      by (simp add: sc created_append cr created_raised)
    have "created (trace s') @ created (passed (drop n ?fin)) =
        map (path_join ?jd) [''taxAssign_ok'', ''abProfilesCmp_ok'', ''complete_ok'', ''country'']"
      unfolding c using created_passed_take [of n ?fin] crf by simp
    moreover from final_raised(4) have "path_exists (fsys s') (path_join ?jd ''abProfilesCmp_ok'')"
      by (simp add: sc script_B_def)
    ultimately show ?thesis using c by auto
  next
    case (stage_failed n st e)
    let ?sc = "script_tax ?jd @ script_B ?jd"
    from stage_failed(3) have c: "created (trace s') = created (passed (take n ?sc))"
      by (simp add: sc created_failed_run)
    have "created (trace s') @ (created (passed (drop n ?sc)) @ map (path_join ?jd) [''complete_ok'', ''country'']) =
        map (path_join ?jd) [''taxAssign_ok'', ''abProfilesCmp_ok'', ''complete_ok'', ''country'']"
      unfolding c using created_passed_take [of n ?sc] cr by simp
    moreover have "(Final, Touch (path_join ?jd ''complete_ok''), None) \<notin> set (trace s')"
    proof
      assume "(Final, Touch (path_join ?jd ''complete_ok''), None) \<in> set (trace s')"
      with stage_failed(3) have "(Final, Touch (path_join ?jd ''complete_ok'')) \<in> set (script w ?jd)"
        by (auto simp: failed_run_def dest!: passed_place in_set_takeD)
      from script_places [OF this] show False by simp
    qed
    ultimately show ?thesis by blast
  qed
  from a bc d show ?thesis by blast
qed

text \<open>
  C6. In branch B a data row with fewer than 7 fields is skipped and the scan goes on
  with the next row. When the simple comparison has succeeded and the hits table can be
  read and has its header line, the scan ends without an exception whatever the lengths
  of the rows, no handler runs, and the run reaches the finalization that creates
  \<open>complete_ok\<close>.
\<close>

theorem short_rows_skipped:
  assumes run: "run_pipeline w job_dir fs = (out, s')"
    and org: "resolve_organism w (abspath fs job_dir) \<notin> Some ` set known_organisms"
    and rows: "read_rows w (path_join (path_join (abspath fs job_dir) ''3.abProfilesCmp'')
                 ''hits_summary.tsv'') = Inr (header # rows)"
    and reached: "(Body Simple_Ab_Comparison,
                   Touch (path_join (abspath fs job_dir) ''abProfilesCmp_ok''), None)
                  \<in> set (trace s')"
  shows "(\<forall>row rest country. length row < 7
            \<longrightarrow> scan_rows (row # rest) country = scan_rows rest country)
       \<and> (\<exists>country. parse_rows w (path_join (path_join (abspath fs job_dir) ''3.abProfilesCmp'')
                        ''hits_summary.tsv'') = Inr country)
       \<and> (Body Parsing_hits_summary,
          Read_rows (path_join (path_join (abspath fs job_dir) ''3.abProfilesCmp'')
                       ''hits_summary.tsv''), None) \<in> set (trace s')
       \<and> (\<forall>st oper r. (Handler st, oper, r) \<notin> set (trace s'))
       \<and> (\<exists>r. (Final, Touch (path_join (abspath fs job_dir) ''complete_ok''), r)
                \<in> set (trace s'))"
proof -
  let ?jd = "abspath fs job_dir"
  let ?hits = "path_join (path_join ?jd ''3.abProfilesCmp'') ''hits_summary.tsv''"
  let ?sc = "script_tax ?jd @ script_B ?jd"
  note sc = script_B_run [OF org]
  have skip: "\<forall>row rest country. length row < 7
            \<longrightarrow> scan_rows (row # rest) country = scan_rows rest country"
    by simp
  from rows scan_rows_total [of rows None]
  have parse: "\<exists>country. parse_rows w ?hits = Inr country"
    by (simp add: parse_rows_def)
  then have pr: "parse_result w ?hits = None" by (auto simp: parse_result_def)
  have rd: "(Body Parsing_hits_summary, Read_rows ?hits, None) \<in> set (passed ?sc)"
    by (simp add: script_tax_def script_B_def passed_def)
  have noh: "(Handler st, oper, r) \<notin> set (passed ?sc @ evs)"
    if "\<forall>ev\<in>set evs. fst ev = Final" for st oper r evs
    using that by (auto dest!: passed_place script_places [of _ w ?jd, unfolded sc])
  from run have "(Body Parsing_hits_summary, Read_rows ?hits, None) \<in> set (trace s')
       \<and> (\<forall>st oper r. (Handler st, oper, r) \<notin> set (trace s'))
       \<and> (\<exists>r. (Final, Touch (path_join ?jd ''complete_ok''), r) \<in> set (trace s'))"
  proof (cases rule: run_pipeline_cases)
    case completed
    have "\<forall>ev\<in>set (passed (script_final ?jd)). fst ev = Final"
      by (simp add: script_final_def passed_def)
    from noh [OF this] completed(2) rd show ?thesis
      by (auto simp: sc script_final_def passed_def)
  next
    case (final_raised x n)
    let ?evs = "passed (take n (script_final ?jd)) @ [(Final, snd (script_final ?jd ! n), Some x)]"
    have "\<forall>ev\<in>set ?evs. fst ev = Final"
      using less_2_cases [OF final_raised(2)] by (auto simp: script_final_def passed_def)
    from noh [OF this] have "\<forall>st oper r. (Handler st, oper, r) \<notin> set (trace s')"
      using final_raised(3) by (simp add: sc)
    moreover have "\<exists>r. (Final, Touch (path_join ?jd ''complete_ok''), r) \<in> set (trace s')"
      using less_2_cases [OF final_raised(2)] final_raised(3)
      by (auto simp: script_final_def passed_def)
    ultimately show ?thesis using rd final_raised(3) by (auto simp: sc)
  next
    case (stage_failed n st e)
    from stage_failed(1) have n: "n < 7"
      by (simp add: sc script_tax_def script_B_def)
    from reached stage_failed(3)
    have "(Body Simple_Ab_Comparison, Touch (path_join ?jd ''abProfilesCmp_ok''), None)
            \<in> set (passed (take n ?sc))"
      by (auto simp: failed_run_def sc)
    then have "(Body Simple_Ab_Comparison, Touch (path_join ?jd ''abProfilesCmp_ok''))
            \<in> set (take n ?sc)"
      by (auto dest: passed_place)
    moreover from n have "n = 0 \<or> n = 1 \<or> n = 2 \<or> n = 3 \<or> n = 4 \<or> n = 5 \<or> n = 6" by arith
    ultimately have n6: "n = 6"
      by (auto simp: script_tax_def script_B_def)
    then have "?sc ! n = (Body Parsing_hits_summary, Read_rows ?hits)"
      by (simp add: script_tax_def script_B_def)
    with stage_failed(2,3) have "(Body Parsing_hits_summary, Read_rows ?hits, Some e) \<in> set (trace s')"
      by (auto simp: failed_run_def sc)
    from run_pipeline_faithful [OF run this] pr show ?thesis by simp
  qed
  with skip parse show ?thesis by blast
qed

subsection \<open>The theorems on the pipeline at concrete runs\<close>

lemma abspath_new_job: "abspath fs_new_job ''anti_form_jobs/J1'' = ''/srv/anti_form_jobs/J1''"
  by code_simp

lemma tax_fails_trace:
  "trace (snd (run_pipeline world_tax_fails ''anti_form_jobs/J1'' fs_new_job)) =
         [(Body Taxonomic_Assignment, Makedirs ''/srv/anti_form_jobs/J1/1.taxAssign'', None),
          (Body Taxonomic_Assignment,
           Run (cmd1 ''/srv/anti_form_jobs/J1/contigFile.fa'' ''/srv/anti_form_jobs/J1/1.taxAssign''),
           Some (CalledProcessError ''Command returned non-zero exit status 2.'' [])),
          (Handler Taxonomic_Assignment,
           Write ''/srv/anti_form_jobs/J1/error.log''
             (failure_text Taxonomic_Assignment (CalledProcessError ''Command returned non-zero exit status 2.'' [])),
           None)]"
  by code_simp

theorem run_pipeline_stage_failure_logged_witness:
  "(Body Taxonomic_Assignment,
    Run (cmd1 ''/srv/anti_form_jobs/J1/contigFile.fa'' ''/srv/anti_form_jobs/J1/1.taxAssign''),
    Some (CalledProcessError ''Command returned non-zero exit status 2.'' []))
     \<in> set (trace (snd (run_pipeline world_tax_fails ''anti_form_jobs/J1'' fs_new_job)))
   \<and> fst (run_pipeline world_tax_fails ''anti_form_jobs/J1'' fs_new_job) = None
   \<and> (\<exists>prior. read_file (fsys (snd (run_pipeline world_tax_fails ''anti_form_jobs/J1'' fs_new_job)))
                  (path_join (abspath fs_new_job ''anti_form_jobs/J1'') ''error.log'')
        = Some (prior @ failure_text Taxonomic_Assignment
                           (CalledProcessError ''Command returned non-zero exit status 2.'' [])))"
proof -
  let ?r = "run_pipeline world_tax_fails ''anti_form_jobs/J1'' fs_new_job"
  have run: "?r = (fst ?r, snd ?r)" by simp
  have fail: "(Body Taxonomic_Assignment,
    Run (cmd1 ''/srv/anti_form_jobs/J1/contigFile.fa'' ''/srv/anti_form_jobs/J1/1.taxAssign''),
    Some (CalledProcessError ''Command returned non-zero exit status 2.'' [])) \<in> set (trace (snd ?r))"
    by (simp add: tax_fails_trace)
  have ret: "fst ?r = None" by code_simp
  from run_pipeline_stage_failure_logged [OF run fail] fail ret show ?thesis
    by blast
qed

lemma blocked_raises:
  "fst (run_pipeline world_tax_fails ''anti_form_jobs/J1'' fs_log_blocked)
     = Some (OSError 21 ''Is a directory'' ''/srv/anti_form_jobs/J1/error.log'')"
  by code_simp

lemma blocked_trace:
  "trace (snd (run_pipeline world_tax_fails ''anti_form_jobs/J1'' fs_log_blocked)) =
     [(Body Taxonomic_Assignment, Makedirs ''/srv/anti_form_jobs/J1/1.taxAssign'', None),
      (Body Taxonomic_Assignment,
       Run (cmd1 ''/srv/anti_form_jobs/J1/contigFile.fa'' ''/srv/anti_form_jobs/J1/1.taxAssign''),
       Some (CalledProcessError ''Command returned non-zero exit status 2.'' [])),
      (Handler Taxonomic_Assignment,
       Write ''/srv/anti_form_jobs/J1/error.log''
         (failure_text Taxonomic_Assignment
            (CalledProcessError ''Command returned non-zero exit status 2.'' [])),
       Some (OSError 21 ''Is a directory'' ''/srv/anti_form_jobs/J1/error.log''))]"
  by code_simp

lemma blocked_tool:
  "tool world_tax_fails
     (cmd1 ''/srv/anti_form_jobs/J1/contigFile.fa'' ''/srv/anti_form_jobs/J1/1.taxAssign'')
     = Some (CalledProcessError ''Command returned non-zero exit status 2.'' [])"
  by code_simp

lemma blocked_no_log:
  "read_file (fsys (snd (run_pipeline world_tax_fails ''anti_form_jobs/J1'' fs_log_blocked)))
     ''/srv/anti_form_jobs/J1/error.log'' = None"
  by code_simp

text \<open>
  C7, as stated, fails: the handlers open \<open>error.log\<close> outside any \<open>try\<close>. With a
  directory in the place of \<open>error.log\<close>, the first tool exits with a non-zero status,
  the handler's \<open>open\<close> raises, and \<open>run_pipeline\<close> leaves with that exception; no
  message is written.
\<close>

theorem run_pipeline_raises_counterexample:
  "tool world_tax_fails
     (cmd1 ''/srv/anti_form_jobs/J1/contigFile.fa'' ''/srv/anti_form_jobs/J1/1.taxAssign'')
     = Some (CalledProcessError ''Command returned non-zero exit status 2.'' [])
   \<and> (Body Taxonomic_Assignment,
       Run (cmd1 ''/srv/anti_form_jobs/J1/contigFile.fa'' ''/srv/anti_form_jobs/J1/1.taxAssign''),
       Some (CalledProcessError ''Command returned non-zero exit status 2.'' []))
      \<in> set (trace (snd (run_pipeline world_tax_fails ''anti_form_jobs/J1'' fs_log_blocked)))
   \<and> fst (run_pipeline world_tax_fails ''anti_form_jobs/J1'' fs_log_blocked)
      = Some (OSError 21 ''Is a directory'' ''/srv/anti_form_jobs/J1/error.log'')
   \<and> read_file (fsys (snd (run_pipeline world_tax_fails ''anti_form_jobs/J1'' fs_log_blocked)))
       ''/srv/anti_form_jobs/J1/error.log'' = None"
  using blocked_tool blocked_raises blocked_no_log by (simp add: blocked_trace)

lemma ab_returns: "fst (run_pipeline world_ab ''anti_form_jobs/J1'' fs_new_job) = None"
  by code_simp

lemma ab_complete:
  "(Final, Touch (path_join (abspath fs_new_job ''anti_form_jobs/J1'') ''complete_ok''), None)
     \<in> set (trace (snd (run_pipeline world_ab ''anti_form_jobs/J1'' fs_new_job)))"
  by code_simp

lemma ab_organism:
  "resolve_organism world_ab (abspath fs_new_job ''anti_form_jobs/J1'') = Some ''AB''"
  by code_simp

theorem branch_A_markers_in_order_witness:
  "run_pipeline world_ab ''anti_form_jobs/J1'' fs_new_job
     = (None, snd (run_pipeline world_ab ''anti_form_jobs/J1'' fs_new_job))
   \<and> resolve_organism world_ab (abspath fs_new_job ''anti_form_jobs/J1'') = Some ''AB''
   \<and> created (trace (snd (run_pipeline world_ab ''anti_form_jobs/J1'' fs_new_job))) =
           map (path_join (abspath fs_new_job ''anti_form_jobs/J1''))
             [''taxAssign_ok'', ''queryProfile_ok'', ''abProfilesCmp_ok'', ''cgProfiles_ok'',
              ''DendroPlot_ok'', ''complete_ok'', ''country'']
   \<and> path_exists (fsys (snd (run_pipeline world_ab ''anti_form_jobs/J1'' fs_new_job)))
        (path_join (abspath fs_new_job ''anti_form_jobs/J1'') ''DendroPlot_ok'')"
proof -
  let ?r = "run_pipeline world_ab ''anti_form_jobs/J1'' fs_new_job"
  have run: "?r = (None, snd ?r)" using ab_returns by (metis prod.collapse)
  have known: "''AB'' \<in> set known_organisms" by (simp add: known_organisms_def)
  from branch_A_markers_in_order [OF run ab_complete ab_organism known] run ab_organism
  show ?thesis by simp
qed

lemma unknown_organism:
  "resolve_organism world_unknown (abspath fs_new_job ''anti_form_jobs/J1'') = None"
  by code_simp

lemma unknown_reached:
  "(Body Simple_Ab_Comparison,
    Touch (path_join (abspath fs_new_job ''anti_form_jobs/J1'') ''abProfilesCmp_ok''), None)
     \<in> set (trace (snd (run_pipeline world_unknown ''anti_form_jobs/J1'' fs_new_job)))"
  by code_simp

lemma unknown_complete:
  "(Final, Touch (path_join (abspath fs_new_job ''anti_form_jobs/J1'') ''complete_ok''), None)
     \<in> set (trace (snd (run_pipeline world_unknown ''anti_form_jobs/J1'' fs_new_job)))"
  by code_simp

theorem branch_B_only_abProfilesCmp_witness:
  "resolve_organism world_unknown (abspath fs_new_job ''anti_form_jobs/J1'')
     \<notin> Some ` set known_organisms
   \<and> (Final, Touch (path_join (abspath fs_new_job ''anti_form_jobs/J1'') ''complete_ok''), None)
       \<in> set (trace (snd (run_pipeline world_unknown ''anti_form_jobs/J1'' fs_new_job)))
   \<and> path_exists (fsys (snd (run_pipeline world_unknown ''anti_form_jobs/J1'' fs_new_job)))
        (path_join (abspath fs_new_job ''anti_form_jobs/J1'') ''abProfilesCmp_ok'')
   \<and> (\<forall>pl r. (pl, Touch (path_join (abspath fs_new_job ''anti_form_jobs/J1'')
                            ''queryProfile_ok''), r)
        \<notin> set (trace (snd (run_pipeline world_unknown ''anti_form_jobs/J1'' fs_new_job))))"
proof -
  let ?r = "run_pipeline world_unknown ''anti_form_jobs/J1'' fs_new_job"
  have run: "?r = (fst ?r, snd ?r)" by simp
  have org: "resolve_organism world_unknown (abspath fs_new_job ''anti_form_jobs/J1'')
     \<notin> Some ` set known_organisms"
    by (simp add: unknown_organism)
  from branch_B_only_abProfilesCmp [OF run org] org unknown_complete
  show ?thesis by simp
qed

theorem short_rows_skipped_witness:
  "read_rows world_unknown
      (path_join (path_join (abspath fs_new_job ''anti_form_jobs/J1'') ''3.abProfilesCmp'')
         ''hits_summary.tsv'')
     = Inr [[''Country'', ''Strain'', ''c3'', ''c4'', ''c5'', ''c6'', ''c7''],
            [''Taiwan'', ''S1''],
            [''Japan'', ''S2'', ''a'', ''b'', ''c'', ''d'', ''e'']]
   \<and> scan_rows [[''Taiwan'', ''S1''], [''Japan'', ''S2'', ''a'', ''b'', ''c'', ''d'', ''e'']] None
       = scan_rows [[''Japan'', ''S2'', ''a'', ''b'', ''c'', ''d'', ''e'']] None
   \<and> (\<forall>st oper r. (Handler st, oper, r)
         \<notin> set (trace (snd (run_pipeline world_unknown ''anti_form_jobs/J1'' fs_new_job))))
   \<and> (\<exists>r. (Final, Touch (path_join (abspath fs_new_job ''anti_form_jobs/J1'') ''complete_ok''), r)
         \<in> set (trace (snd (run_pipeline world_unknown ''anti_form_jobs/J1'' fs_new_job))))"
proof -
  let ?r = "run_pipeline world_unknown ''anti_form_jobs/J1'' fs_new_job"
  have run: "?r = (fst ?r, snd ?r)" by simp
  have org: "resolve_organism world_unknown (abspath fs_new_job ''anti_form_jobs/J1'')
     \<notin> Some ` set known_organisms"
    by (simp add: unknown_organism)
  have rows: "read_rows world_unknown
      (path_join (path_join (abspath fs_new_job ''anti_form_jobs/J1'') ''3.abProfilesCmp'')
         ''hits_summary.tsv'')
     = Inr ([''Country'', ''Strain'', ''c3'', ''c4'', ''c5'', ''c6'', ''c7'']
            # [[''Taiwan'', ''S1''], [''Japan'', ''S2'', ''a'', ''b'', ''c'', ''d'', ''e'']])"
    by (simp add: world_unknown_def)
  have short: "length [''Taiwan'', ''S1''] < 7" by simp
  from short_rows_skipped [OF run org rows unknown_reached] rows short
  show ?thesis by simp
qed

subsection \<open>Job identifiers\<close>

lemma hundredth_id:
  "fst (generate_job_id chance_example fs_new_job 1000 gen_hundredth)
     = Inr ''20250101100-3aho-vCJQ-X4bipwDK''"
  by code_simp

lemma hundredth_format:
  "\<not> job_id_format ''20250101100-3aho-vCJQ-X4bipwDK''"
  by code_simp

lemma generate_random_keys_pool:
  assumes "generate_random_keys ch len st = (k, st')"
  shows "length k = len \<and> set k \<subseteq> set pool \<and> serial_counters st' = serial_counters st
         \<and> clock_reads st' = clock_reads st"
proof -
  have "0 < length pool" by (simp add: pool_def)
  then have "\<And>i. pool ! (i mod length pool) \<in> set pool" by simp
  with assms show ?thesis by (auto simp: generate_random_keys_def)
qed

lemma dash_not_in_pool: "CHR ''-'' \<notin> set pool"
  by (simp add: pool_def)

lemma digit_nth: "n < 10 \<Longrightarrow> ''0123456789'' ! n \<in> set ''0123456789''"
  by (rule nth_mem) simp

lemma fmt_02d_two_digits:
  assumes "n < 100"
  shows "length (fmt_02d n) = 2 \<and> set (fmt_02d n) \<subseteq> set ''0123456789''"
proof (cases "n < 10")
  case True
  then have "show_nat n = [''0123456789'' ! n]" by (simp add: show_nat.simps)
  with digit_nth [OF True] True show ?thesis by (simp add: fmt_02d_def)
next
  case False
  with assms have d: "n div 10 < 10" "n mod 10 < 10" by auto
  from False d have "show_nat n = [''0123456789'' ! (n div 10), ''0123456789'' ! (n mod 10)]"
    by (simp add: show_nat.simps [of n] show_nat.simps [of "n div 10"])
  with digit_nth [OF d(1)] digit_nth [OF d(2)] False show ?thesis by (simp add: fmt_02d_def)
qed

lemma job_id_formatI:
  assumes d: "length d = 10" "set d \<subseteq> set ''0123456789''"
    and a: "length a = 4" "set a \<subseteq> set pool"
    and b: "length b = 4" "set b \<subseteq> set pool"
    and c: "length c = 8" "set c \<subseteq> set pool"
  shows "job_id_format (d @ ''-'' @ a @ ''-'' @ b @ ''-'' @ c)"
proof -
  have nd: "CHR ''-'' \<notin> set d" using d(2) by auto
  have na: "CHR ''-'' \<notin> set a" "CHR ''-'' \<notin> set b" "CHR ''-'' \<notin> set c"
    using a(2) b(2) c(2) dash_not_in_pool by auto
  have "split_on CHR ''-'' (d @ CHR ''-'' # (a @ CHR ''-'' # (b @ CHR ''-'' # c))) = [d, a, b, c]"
    using nd na by (simp add: split_on_append split_on_no_sep)
  then show ?thesis using assms
    by (simp add: job_id_format_def list_all_iff subset_iff)
qed

text \<open>An identifier that is returned never names an existing folder.\<close>

lemma generate_job_id_fresh:
  "generate_job_id ch fs depth st = (Inr job_id, st')
     \<Longrightarrow> \<not> path_exists fs (path_join ''anti_form_jobs'' job_id)"
proof (induction depth arbitrary: st)
  case 0
  then show ?case by simp
next
  case (Suc depth)
  then show ?case
    by (auto simp: Let_def split: prod.splits if_splits)
qed

text \<open>
  While the day's counter has not passed 100 (fewer than 100 identifiers drawn that
  day) and the date has eight digits, the identifier has the format.
\<close>

lemma generate_job_id_format:
  assumes "generate_job_id ch fs depth st = (Inr job_id, st')"
    and "\<forall>k. length (today_str ch k) = 8 \<and> set (today_str ch k) \<subseteq> set ''0123456789''"
    and "\<forall>day. next_seq st' day \<le> 100"
  shows "job_id_format job_id"
  using assms(1)
proof (induction depth arbitrary: st)
  case 0
  then show ?case by simp
next
  case (Suc depth)
  let ?today = "today_str ch (clock_reads st)"
  let ?n = "case serial_counters st ?today of None \<Rightarrow> 1 | Some n \<Rightarrow> n"
  let ?st1 = "st\<lparr>serial_counters := (serial_counters st)(?today \<mapsto> ?n + 1),
                   clock_reads := clock_reads st + 1\<rparr>"
  obtain k1 st2 where k1: "generate_random_keys ch 4 ?st1 = (k1, st2)"
    by (cases "generate_random_keys ch 4 ?st1")
  obtain k2 st3 where k2: "generate_random_keys ch 4 st2 = (k2, st3)"
    by (cases "generate_random_keys ch 4 st2")
  obtain k3 st4 where k3: "generate_random_keys ch 8 st3 = (k3, st4)"
    by (cases "generate_random_keys ch 8 st3")
  let ?id = "?today @ fmt_02d ?n @ ''-'' @ k1 @ ''-'' @ k2 @ ''-'' @ k3"
  note p1 = generate_random_keys_pool [OF k1]
  note p2 = generate_random_keys_pool [OF k2]
  note p3 = generate_random_keys_pool [OF k3]
  show ?case
  proof (cases "path_exists fs (path_join ''anti_form_jobs'' ?id)")
    case True
    with Suc.prems k1 k2 k3 have "generate_job_id ch fs depth st4 = (Inr job_id, st')"
      by (simp add: Let_def)
    then show ?thesis by (rule Suc.IH)
  next
    case False
    with Suc.prems k1 k2 k3 have r: "job_id = ?id" "st' = st4" by (simp_all add: Let_def)
    have "serial_counters st4 = (serial_counters st)(?today \<mapsto> ?n + 1)"
      using p1 p2 p3 by simp
    then have "next_seq st' ?today = ?n + 1" using r by (simp add: next_seq_def)
    with assms(3) have "?n < 100" by (metis Suc_eq_plus1 Suc_le_lessD)
    from fmt_02d_two_digits [OF this] assms(2)
    have "length (?today @ fmt_02d ?n) = 10" "set (?today @ fmt_02d ?n) \<subseteq> set ''0123456789''"
      by auto
    from job_id_formatI [OF this] p1 p2 p3 show ?thesis unfolding r by simp
  qed
qed

text \<open>
  C8 does not hold of the code. The sequence number is formatted with \<open>{n:02d}\<close>, which
  pads to two digits and does not cut: the hundredth identifier of a day has three, and
  is not of the format \<open>YYYYMMDDss-XXXX-XXXX-XXXXXXXX\<close>. (Up to the ninety-ninth the
  format holds, and a returned identifier never names an existing folder: see
  \<open>generate_job_id_format\<close> and \<open>generate_job_id_fresh\<close>.)
\<close>

theorem generate_job_id_hundredth:
  "fst (generate_job_id chance_example fs_new_job 1000 gen_hundredth)
     = Inr ''20250101100-3aho-vCJQ-X4bipwDK''
   \<and> \<not> job_id_format ''20250101100-3aho-vCJQ-X4bipwDK''
   \<and> \<not> path_exists fs_new_job (path_join ''anti_form_jobs'' ''20250101100-3aho-vCJQ-X4bipwDK'')"
proof -
  have "\<not> path_exists fs_new_job (path_join ''anti_form_jobs'' ''20250101100-3aho-vCJQ-X4bipwDK'')"
    by code_simp
  with hundredth_id hundredth_format show ?thesis by simp
qed

subsection \<open>Submission\<close>

lemma validate_gca_code_examples:
  "validate_gca_code ''GCA_000000001.1''" "validate_gca_code ''GCF_123456789''"
  "\<not> validate_gca_code ''GCA_12345''" "\<not> validate_gca_code ''GCA_000000001.12''"
  "\<not> validate_gca_code []"
  by code_simp+

lemma mkdirs_files: "mkdirs fs c cs = Inr fs' \<Longrightarrow> files fs' = files fs \<and> cwd fs' = cwd fs"
  by (induction fs c cs rule: mkdirs.induct) (auto split: if_splits)

lemma mkdirs_walk:
  "mkdirs fs c cs = Inr fs' \<Longrightarrow> \<exists>k. walk fs' c cs = Some k \<and> is_dir fs' k"
proof (induction fs c cs rule: mkdirs.induct)
  case (1 fs cur)
  then show ?case by (auto split: if_splits)
next
  case (2 fs cur c cs)
  from "2.prems" have d: "is_dir fs cur" by (auto split: if_splits)
  from mkdirs_le [OF "2.prems"] d have d': "is_dir fs' cur" by (rule is_dir_mono)
  show ?case
  proof (cases "c = [] \<or> c = ''.''")
    case True
    with 2 d d' show ?thesis by (auto split: if_splits)
  next
    case False
    note nf = this
    show ?thesis
    proof (cases "c = ''..''")
      case True
      with 2 nf d d' show ?thesis by (auto split: if_splits)
    next
      case False
      with 2 nf d d' show ?thesis by (auto split: if_splits)
    qed
  qed
qed

lemma makedirs_isdir: "makedirs fs p = Inr fs' \<Longrightarrow> path_isdir fs' p"
proof -
  assume a: "makedirs fs p = Inr fs'"
  then have p: "p \<noteq> []" and m: "mkdirs fs (start_of fs p) (split_on CHR ''/'' p) = Inr fs'"
    by (auto simp: makedirs_def split: if_splits sum.splits)
  from mkdirs_files [OF m] have "start_of fs' p = start_of fs p" by (simp add: start_of_def)
  with mkdirs_walk [OF m] p show ?thesis by (auto simp: path_isdir_def lookup_def)
qed

lemma makedirs_files: "makedirs fs p = Inr fs' \<Longrightarrow> files fs' = files fs"
  by (auto simp: makedirs_def dest: mkdirs_files split: if_splits sum.splits)

lemma generate_random_keys_next_seq:
  "generate_random_keys ch len st = (k, st') \<Longrightarrow> next_seq st' day = next_seq st day"
  by (auto simp: generate_random_keys_def next_seq_def)

lemma generate_job_id_counters_grow:
  "generate_job_id ch fs depth st = (r, st') \<Longrightarrow> next_seq st day \<le> next_seq st' day"
proof (induction depth arbitrary: st)
  case 0
  then show ?case by simp
next
  case (Suc depth)
  let ?today = "today_str ch (clock_reads st)"
  let ?n = "case serial_counters st ?today of None \<Rightarrow> 1 | Some n \<Rightarrow> n"
  let ?st1 = "st\<lparr>serial_counters := (serial_counters st)(?today \<mapsto> ?n + 1),
                   clock_reads := clock_reads st + 1\<rparr>"
  obtain k1 st2 where k1: "generate_random_keys ch 4 ?st1 = (k1, st2)"
    by (cases "generate_random_keys ch 4 ?st1")
  obtain k2 st3 where k2: "generate_random_keys ch 4 st2 = (k2, st3)"
    by (cases "generate_random_keys ch 4 st2")
  obtain k3 st4 where k3: "generate_random_keys ch 8 st3 = (k3, st4)"
    by (cases "generate_random_keys ch 8 st3")
  have "next_seq st4 day = next_seq ?st1 day"
    using generate_random_keys_next_seq [OF k1] generate_random_keys_next_seq [OF k2]
      generate_random_keys_next_seq [OF k3] by simp
  moreover have "next_seq st day \<le> next_seq ?st1 day" by (simp add: next_seq_def)
  ultimately have s4: "next_seq st day \<le> next_seq st4 day" by simp
  let ?id = "?today @ fmt_02d ?n @ ''-'' @ k1 @ ''-'' @ k2 @ ''-'' @ k3"
  show ?case
  proof (cases "path_exists fs (path_join ''anti_form_jobs'' ?id)")
    case True
    with Suc.prems k1 k2 k3 have "generate_job_id ch fs depth st4 = (r, st')"
      by (simp add: Let_def)
    from Suc.IH [OF this] s4 show ?thesis by simp
  next
    case False
    with Suc.prems k1 k2 k3 have "st' = st4" by (simp add: Let_def)
    with s4 show ?thesis by simp
  qed
qed

lemma generate_job_id_consumes:
  assumes "generate_job_id ch fs depth st = (Inr job_id, st')"
  shows "next_seq st (today_str ch (clock_reads st)) < next_seq st' (today_str ch (clock_reads st))"
proof (cases depth)
  case 0
  with assms show ?thesis by simp
next
  case (Suc d)
  let ?today = "today_str ch (clock_reads st)"
  let ?n = "case serial_counters st ?today of None \<Rightarrow> 1 | Some n \<Rightarrow> n"
  let ?st1 = "st\<lparr>serial_counters := (serial_counters st)(?today \<mapsto> ?n + 1),
                   clock_reads := clock_reads st + 1\<rparr>"
  obtain k1 st2 where k1: "generate_random_keys ch 4 ?st1 = (k1, st2)"
    by (cases "generate_random_keys ch 4 ?st1")
  obtain k2 st3 where k2: "generate_random_keys ch 4 st2 = (k2, st3)"
    by (cases "generate_random_keys ch 4 st2")
  obtain k3 st4 where k3: "generate_random_keys ch 8 st3 = (k3, st4)"
    by (cases "generate_random_keys ch 8 st3")
  have "next_seq st4 ?today = next_seq ?st1 ?today"
    using generate_random_keys_next_seq [OF k1] generate_random_keys_next_seq [OF k2]
      generate_random_keys_next_seq [OF k3] by simp
  moreover have "next_seq st ?today < next_seq ?st1 ?today" by (simp add: next_seq_def)
  ultimately have s4: "next_seq st ?today < next_seq st4 ?today" by simp
  let ?id = "?today @ fmt_02d ?n @ ''-'' @ k1 @ ''-'' @ k2 @ ''-'' @ k3"
  show ?thesis
  proof (cases "path_exists fs (path_join ''anti_form_jobs'' ?id)")
    case True
    with assms Suc k1 k2 k3 have "generate_job_id ch fs d st4 = (Inr job_id, st')"
      by (simp add: Let_def)
    from generate_job_id_counters_grow [OF this] s4 show ?thesis
      by (meson less_le_trans)
  next
    case False
    with assms Suc k1 k2 k3 have "st' = st4" by (simp add: Let_def)
    with s4 show ?thesis by simp
  qed
qed

text \<open>
  C10. When the accession code is not empty and does not match the pattern, the handler
  answers with HTTP 400 after step 1 has run: the identifier has been allocated (the
  day's counter has advanced), its folder, which did not exist before, now is a
  directory, and no file has been written.
\<close>

theorem upload_rejects_after_allocation:
  assumes gen: "generate_job_id ch (disk srv) depth (gen srv) = (Inr job_id, g)"
    and mk: "makedirs (disk srv) (path_join ''anti_form_jobs'' job_id) = Inr fs1"
    and bad: "up_gcaCode form \<noteq> []" "\<not> validate_gca_code (up_gcaCode form)"
  shows "upload_file ch w sv depth form srv
           = (Rejected (HTTPException 400 ''Invalid GCA Code format.''),
              srv\<lparr>gen := g, disk := fs1\<rparr>)
       \<and> \<not> path_exists (disk srv) (path_join ''anti_form_jobs'' job_id)
       \<and> path_isdir fs1 (path_join ''anti_form_jobs'' job_id)
       \<and> files fs1 = files (disk srv)
       \<and> next_seq (gen srv) (today_str ch (clock_reads (gen srv)))
           < next_seq g (today_str ch (clock_reads (gen srv)))"
proof -
  from gen mk bad have "upload_file ch w sv depth form srv
           = (Rejected (HTTPException 400 ''Invalid GCA Code format.''),
              srv\<lparr>gen := g, disk := fs1\<rparr>)"
    by (simp add: upload_file_def)
  with generate_job_id_fresh [OF gen] makedirs_isdir [OF mk] makedirs_files [OF mk]
    generate_job_id_consumes [OF gen]
  show ?thesis by simp
qed

lemma first_id:
  "fst (generate_job_id chance_example fs_new_job 1000 gen_fresh)
     = Inr ''2025010101-3aho-vCJQ-X4bipwDK''"
  by code_simp

lemma first_folder:
  "\<not> isl (makedirs fs_new_job (path_join ''anti_form_jobs'' ''2025010101-3aho-vCJQ-X4bipwDK''))"
  by code_simp

lemma bad_code: "\<not> validate_gca_code ''GCA_12345''"
  by code_simp

theorem upload_rejects_after_allocation_witness:
  "fst (upload_file chance_example world_ab services_example 1000 form_bad_code server_start)
     = Rejected (HTTPException 400 ''Invalid GCA Code format.'')
   \<and> \<not> path_exists (disk server_start) (path_join ''anti_form_jobs'' ''2025010101-3aho-vCJQ-X4bipwDK'')
   \<and> path_isdir
       (disk (snd (upload_file chance_example world_ab services_example 1000 form_bad_code
                     server_start)))
       (path_join ''anti_form_jobs'' ''2025010101-3aho-vCJQ-X4bipwDK'')"
proof -
  let ?g = "generate_job_id chance_example (disk server_start) 1000 (gen server_start)"
  let ?m = "makedirs (disk server_start) (path_join ''anti_form_jobs'' ''2025010101-3aho-vCJQ-X4bipwDK'')"
  have gen: "?g = (Inr ''2025010101-3aho-vCJQ-X4bipwDK'', snd ?g)"
    using first_id by (simp add: server_start_def prod_eq_iff)
  have mk: "?m = Inr (projr ?m)"
    using first_folder by (simp add: server_start_def)
  have bad: "up_gcaCode form_bad_code \<noteq> []" "\<not> validate_gca_code (up_gcaCode form_bad_code)"
    using bad_code by (simp_all add: form_bad_code_def)
  from upload_rejects_after_allocation [OF gen mk bad, of world_ab services_example]
  show ?thesis by simp
qed

subsection \<open>The worker pool\<close>

lemma executing_of_length: "length (executing_of w) \<le> 1"
  by (cases w) auto

lemma executing_bound: "length (concat (map executing_of ws)) \<le> length ws"
proof (induction ws)
  case Nil
  show ?case by simp
next
  case (Cons w ws)
  with executing_of_length [of w] show ?case by simp
qed

lemma pool_step_workers: "pool_step s s' \<Longrightarrow> length (workers s') = length (workers s)"
  by (induction rule: pool_step.induct) auto

lemma reachable_workers: "reachable s \<Longrightarrow> length (workers s) = ANALYSIS_WORKER_COUNT"
proof (induction rule: reachable.induct)
  case start
  show ?case by (simp add: start_analysis_workers_def)
next
  case (step s s')
  with pool_step_workers [of s s'] show ?case by simp
qed

text \<open>
  C9. In every state the pool can reach, whatever has been put on the queue, at most
  \<open>ANALYSIS_WORKER_COUNT = 5\<close> pipelines are executing: there are always exactly five
  worker tasks, and each of them has at most one folder in the executor.
\<close>

theorem at_most_five_pipelines:
  assumes "reachable s"
  shows "length (executing s) \<le> ANALYSIS_WORKER_COUNT \<and> ANALYSIS_WORKER_COUNT = 5
       \<and> length (workers s) = ANALYSIS_WORKER_COUNT
       \<and> (\<forall>i < length (workers s). length (executing_of (workers s ! i)) \<le> 1)"
proof -
  have "length (executing s) \<le> length (workers s)"
    unfolding executing_def by (rule executing_bound)
  with reachable_workers [OF assms] executing_of_length show ?thesis
    by (simp add: ANALYSIS_WORKER_COUNT_def)
qed

lemma reachable_two_busy:
  "reachable \<lparr> pending = [''J3''], workers = [Executing ''J1'', Executing ''J2'', Idle, Idle, Idle] \<rparr>"
proof -
  let ?s0 = "start_analysis_workers"
  have s0: "?s0 = \<lparr> pending = [], workers = [Idle, Idle, Idle, Idle, Idle] \<rparr>"
    by (simp add: start_analysis_workers_def ANALYSIS_WORKER_COUNT_def numeral_eq_Suc)
  have r0: "reachable \<lparr> pending = [], workers = [Idle, Idle, Idle, Idle, Idle] \<rparr>"
    using reachable.start by (simp add: s0)
  have r1: "reachable \<lparr> pending = [''J1''], workers = [Idle, Idle, Idle, Idle, Idle] \<rparr>"
    using reachable.step [OF r0 pool_step.put [of _ "''J1''"]] by simp
  have r2: "reachable \<lparr> pending = [''J1'', ''J2''], workers = [Idle, Idle, Idle, Idle, Idle] \<rparr>"
    using reachable.step [OF r1 pool_step.put [of _ "''J2''"]] by simp
  have r3: "reachable \<lparr> pending = [''J1'', ''J2'', ''J3''], workers = [Idle, Idle, Idle, Idle, Idle] \<rparr>"
    using reachable.step [OF r2 pool_step.put [of _ "''J3''"]] by simp
  have r4: "reachable \<lparr> pending = [''J2'', ''J3''], workers = [Executing ''J1'', Idle, Idle, Idle, Idle] \<rparr>"
    using reachable.step [OF r3 pool_step.get [of 0 _ "''J1''" "[''J2'', ''J3'']"]] by simp
  show ?thesis
    using reachable.step [OF r4 pool_step.get [of 1 _ "''J2''" "[''J3'']"]] by simp
qed

theorem at_most_five_pipelines_witness:
  "reachable \<lparr> pending = [''J3''], workers = [Executing ''J1'', Executing ''J2'', Idle, Idle, Idle] \<rparr>
   \<and> executing \<lparr> pending = [''J3''], workers = [Executing ''J1'', Executing ''J2'', Idle, Idle, Idle] \<rparr>
       = [''J1'', ''J2'']
   \<and> length (executing \<lparr> pending = [''J3''],
                         workers = [Executing ''J1'', Executing ''J2'', Idle, Idle, Idle] \<rparr>) \<le> 5"
  using at_most_five_pipelines [OF reachable_two_busy] reachable_two_busy
  by (simp add: executing_def)

end
